theory Spec2Isabelle
  imports Main "HOL-Library.Word"
begin

section \<open>Data model\<close>

text \<open>
  The reference-counted string of \<^verbatim>\<open>rc_string.cpp\<close> and the block of
  \<^verbatim>\<open>thread_safe_rc_string.cpp\<close>. \<^verbatim>\<open>size_t\<close> is taken as a 64-bit
  unsigned word, \<^verbatim>\<open>unsigned int\<close> as a 32-bit one; arithmetic on both wraps around.
  A byte of a \<^verbatim>\<open>char\<close> array is \<open>None\<close> until something has been written to it
  (\<^verbatim>\<open>new char[n]\<close> does not initialise its storage).
\<close>

type_synonym size_t = "64 word"
type_synonym byte = "8 word"
type_synonym cell = "byte option"
type_synonym addr = nat

text \<open>
  How a run of the program can stop instead of returning: a failed \<^verbatim>\<open>assert\<close>
  (assertions are taken as compiled in), the C runtime's invalid-parameter handler
  (called by \<^verbatim>\<open>memcpy_s\<close>; its default ends the program), or an access outside any
  live object. Every \<^verbatim>\<open>new\<close> is taken to succeed: running out of memory is not
  modelled.
\<close>

datatype fault = AssertFailed | InvalidParameter | BadAccess

text \<open>
  \<^verbatim>\<open>StringData\<close> and \<^verbatim>\<open>ThreadSafeStringData\<close> have the same four members.
  A member \<^verbatim>\<open>x_\<close> of the source is the field \<open>x_m\<close> here (a name cannot end in an
  underscore). \<open>buffer_m\<close> is the \<^verbatim>\<open>unique_ptr<char[]>\<close>: \<open>None\<close> is the null pointer,
  otherwise the address of the array and its cells (as many as were allocated).
\<close>

record StringData =
  buffer_m :: "(addr \<times> cell list) option"
  capacity_m :: size_t
  size_m :: size_t
  ref_count_m :: "32 word"

definition kBaseSize :: size_t where
  "kBaseSize = 4"

text \<open>\<^verbatim>\<open>static constexpr size_t kUnsharedRefMark = static_cast<unsigned int>(-1)\<close>\<close>

definition kUnsharedRefMark :: size_t where
  "kUnsharedRefMark = ucast (- 1 :: 32 word)"

definition RoundToMultiple :: "size_t \<Rightarrow> size_t \<Rightarrow> size_t" where
  "RoundToMultiple num factor =
     (if factor = 0 then 0 else num - 1 - (num - 1) mod factor + factor)"

text \<open>
  \<^verbatim>\<open>memcpy_s(dest, destsz, src, count)\<close> of the C runtime the code is written against:
  a count of zero succeeds before any other check; a null destination, a null source or
  \<open>destsz < count\<close> calls the invalid-parameter handler. The destination is given as a
  buffer and an offset into it (\<^verbatim>\<open>buffer_.get() + pos\<close>). A copy that would leave the
  destination array, or read past the source, is an access outside a live object.
\<close>

definition memcpy_s ::
  "(addr \<times> cell list) option \<Rightarrow> nat \<Rightarrow> size_t \<Rightarrow> cell list option \<Rightarrow> size_t
     \<Rightarrow> fault + (addr \<times> cell list) option" where
  "memcpy_s dest off destsz src count =
     (if count = 0 then Inr dest
      else case dest of
        None \<Rightarrow> Inl (if off = 0 then InvalidParameter else BadAccess)
      | Some (a, cs) \<Rightarrow>
          (case src of
             None \<Rightarrow> Inl InvalidParameter
           | Some bytes \<Rightarrow>
               if destsz < count then Inl InvalidParameter
               else if length bytes < unat count \<or> length cs < off + unat count
               then Inl BadAccess
               else Inr (Some (a, take off cs @ take (unat count) bytes
                                  @ drop (off + unat count) cs))))"

subsection \<open>The reference count, non-synchronized\<close>

definition Unique :: "StringData \<Rightarrow> bool" where
  "Unique d = (ref_count_m d = 1 \<or> ucast (ref_count_m d) = kUnsharedRefMark)"

definition Unsharedable :: "StringData \<Rightarrow> bool" where
  "Unsharedable d = (ucast (ref_count_m d) = kUnsharedRefMark)"

definition MakeUnsharedable :: "StringData \<Rightarrow> fault + StringData" where
  "MakeUnsharedable d =
     (if Unique d then Inr (d\<lparr>ref_count_m := ucast kUnsharedRefMark\<rparr>) else Inl AssertFailed)"

definition ResetSharedable :: "StringData \<Rightarrow> fault + StringData" where
  "ResetSharedable d =
     (if Unique d then Inr (d\<lparr>ref_count_m := 1\<rparr>) else Inl AssertFailed)"

definition AddRef :: "StringData \<Rightarrow> fault + StringData" where
  "AddRef d =
     (if 0 < ref_count_m d then Inr (d\<lparr>ref_count_m := ref_count_m d + 1\<rparr>)
      else Inl AssertFailed)"

text \<open>
  \<^verbatim>\<open>if (Unsharedable() || --ref_count_ == 0) return true; return false;\<close> The
  decrement is not evaluated when the block is unsharedable.
\<close>

definition Release :: "StringData \<Rightarrow> fault + (bool \<times> StringData)" where
  "Release d =
     (if 0 < ref_count_m d
      then (if Unsharedable d then Inr (True, d)
            else let d' = d\<lparr>ref_count_m := ref_count_m d - 1\<rparr>
                 in Inr (ref_count_m d' = 0, d'))
      else Inl AssertFailed)"

subsection \<open>The reference count, synchronized\<close>

text \<open>
  The operations of \<^verbatim>\<open>std::atomic<unsigned int>\<close> the block uses, one thread at a
  time: \<open>fetch_add\<close> and \<open>fetch_sub\<close> return the value held before the update, paired
  here with the value stored.
\<close>

definition load :: "32 word \<Rightarrow> 32 word" where
  "load c = c"

definition fetch_add :: "32 word \<Rightarrow> 32 word \<Rightarrow> 32 word \<times> 32 word" where
  "fetch_add c v = (c, c + v)"

definition fetch_sub :: "32 word \<Rightarrow> 32 word \<Rightarrow> 32 word \<times> 32 word" where
  "fetch_sub c v = (c, c - v)"

definition ThreadSafe_Unique :: "StringData \<Rightarrow> bool" where
  "ThreadSafe_Unique d =
     (let ref_count = load (ref_count_m d)
      in ref_count = 1 \<or> ucast ref_count = kUnsharedRefMark)"

definition ThreadSafe_Unsharedable :: "StringData \<Rightarrow> bool" where
  "ThreadSafe_Unsharedable d = (ucast (load (ref_count_m d)) = kUnsharedRefMark)"

definition ThreadSafe_AddRef :: "StringData \<Rightarrow> fault + StringData" where
  "ThreadSafe_AddRef d =
     (if 0 < load (ref_count_m d)
      then Inr (d\<lparr>ref_count_m := snd (fetch_add (ref_count_m d) 1)\<rparr>)
      else Inl AssertFailed)"

text \<open>
  \<^verbatim>\<open>if (Unsharedable() || ref_count_.fetch_sub(1) == 0) return true; return false;\<close>
\<close>

definition ThreadSafe_Release :: "StringData \<Rightarrow> fault + (bool \<times> StringData)" where
  "ThreadSafe_Release d =
     (if 0 < load (ref_count_m d)
      then (if ThreadSafe_Unsharedable d then Inr (True, d)
            else let r = fetch_sub (ref_count_m d) 1
                 in Inr (fst r = 0, d\<lparr>ref_count_m := snd r\<rparr>))
      else Inl AssertFailed)"

text \<open>
  \<open>n\<close> calls of \<open>Release\<close> on one block, one after the other, with what each
  returned.
\<close>

fun Release_times :: "nat \<Rightarrow> StringData \<Rightarrow> fault + (bool list \<times> StringData)" where
  "Release_times 0 d = Inr ([], d)"
| "Release_times (Suc n) d =
     (case Release d of
        Inl e \<Rightarrow> Inl e
      | Inr (last_owner, d') \<Rightarrow>
          (case Release_times n d' of
             Inl e \<Rightarrow> Inl e
           | Inr (rest, d'') \<Rightarrow> Inr (last_owner # rest, d'')))"

fun ThreadSafe_Release_times :: "nat \<Rightarrow> StringData \<Rightarrow> fault + (bool list \<times> StringData)" where
  "ThreadSafe_Release_times 0 d = Inr ([], d)"
| "ThreadSafe_Release_times (Suc n) d =
     (case ThreadSafe_Release d of
        Inl e \<Rightarrow> Inl e
      | Inr (last_owner, d') \<Rightarrow>
          (case ThreadSafe_Release_times n d' of
             Inl e \<Rightarrow> Inl e
           | Inr (rest, d'') \<Rightarrow> Inr (last_owner # rest, d'')))"

subsection \<open>The shared data block\<close>

text \<open>
  \<open>Reserve p required_capacity d\<close>: \<open>p\<close> is the address \<^verbatim>\<open>new char[new_capacity]\<close>
  returns if the block grows.
\<close>

definition Reserve :: "addr \<Rightarrow> size_t \<Rightarrow> StringData \<Rightarrow> fault + StringData" where
  "Reserve p required_capacity d =
     (if required_capacity \<le> capacity_m d then Inr d
      else let new_base = max (capacity_m d * 3 div 2) required_capacity;
               new_capacity = RoundToMultiple new_base kBaseSize;
               new_buf = Some (p, replicate (unat new_capacity) None)
           in case memcpy_s new_buf 0 new_capacity (map_option snd (buffer_m d)) (size_m d) of
                Inl e \<Rightarrow> Inl e
              | Inr b \<Rightarrow> Inr (d\<lparr>buffer_m := b, capacity_m := new_capacity\<rparr>))"

text \<open>
  \<open>CopyData str length pos d\<close>: \<open>str\<close> is what the pointer designates (\<open>None\<close> for a
  null pointer, otherwise the bytes readable from it).
\<close>

definition CopyData ::
  "cell list option \<Rightarrow> size_t \<Rightarrow> size_t \<Rightarrow> StringData \<Rightarrow> fault + StringData" where
  "CopyData str len pos d =
     (if Unique d
      then (if pos \<le> size_m d
            then (if pos + len \<le> capacity_m d
                  then (case memcpy_s (buffer_m d) (unat pos) (capacity_m d) str len of
                          Inl e \<Rightarrow> Inl e
                        | Inr b \<Rightarrow> Inr (d\<lparr>buffer_m := b, size_m := max (pos + len) (size_m d)\<rparr>))
                  else Inl AssertFailed)
            else Inl AssertFailed)
      else Inl AssertFailed)"

text \<open>
  The constructor \<^verbatim>\<open>StringData(size_t capacity) : size_(0), ref_count_(1)\<close> gives
  \<open>capacity_m\<close> no initial value before it calls \<open>Reserve\<close>, which reads it. What the
  member holds then is whatever the storage of the new object held: the parameter
  \<open>stale\<close>. The buffer starts as the null pointer.
\<close>

definition StringData_new :: "size_t \<Rightarrow> addr \<Rightarrow> size_t \<Rightarrow> fault + StringData" where
  "StringData_new stale p capacity =
     Reserve p capacity \<lparr>buffer_m = None, capacity_m = stale, size_m = 0, ref_count_m = 1\<rparr>"

definition Clone :: "size_t \<Rightarrow> addr \<Rightarrow> size_t \<Rightarrow> StringData \<Rightarrow> fault + StringData" where
  "Clone stale p new_capacity d =
     (case StringData_new stale p (max new_capacity (capacity_m d)) of
        Inl e \<Rightarrow> Inl e
      | Inr data \<Rightarrow> CopyData (map_option snd (buffer_m d)) (size_m d) 0 data)"

text \<open>
  \<open>Reserve\<close> and \<open>CopyData\<close> of \<^verbatim>\<open>ThreadSafeStringData\<close>, as
  \<^verbatim>\<open>thread_safe_rc_string.cpp\<close> has them.
\<close>

definition ThreadSafe_Reserve :: "addr \<Rightarrow> size_t \<Rightarrow> StringData \<Rightarrow> fault + StringData" where
  "ThreadSafe_Reserve p required_capacity d =
     (if required_capacity \<le> capacity_m d then Inr d
      else let new_base = max (capacity_m d * 3 div 2) required_capacity;
               new_capacity = RoundToMultiple new_base kBaseSize;
               new_buf = Some (p, replicate (unat new_capacity) None)
           in case memcpy_s new_buf 0 new_capacity (map_option snd (buffer_m d)) (size_m d) of
                Inl e \<Rightarrow> Inl e
              | Inr b \<Rightarrow> Inr (d\<lparr>buffer_m := b, capacity_m := new_capacity\<rparr>))"

definition ThreadSafe_CopyData ::
  "cell list option \<Rightarrow> size_t \<Rightarrow> size_t \<Rightarrow> StringData \<Rightarrow> fault + StringData" where
  "ThreadSafe_CopyData str len pos d =
     (if ThreadSafe_Unique d
      then (if pos \<le> size_m d
            then (if pos + len \<le> capacity_m d
                  then (case memcpy_s (buffer_m d) (unat pos) (capacity_m d) str len of
                          Inl e \<Rightarrow> Inl e
                        | Inr b \<Rightarrow> Inr (d\<lparr>buffer_m := b, size_m := max (pos + len) (size_m d)\<rparr>))
                  else Inl AssertFailed)
            else Inl AssertFailed)
      else Inl AssertFailed)"

text \<open>
  What the accessors return: \<open>data\<close> the pointer, \<open>contents\<close> the bytes in use.
  \<open>readable\<close> is what can be read through a source pointer (nothing through null),
  \<open>cells\<close> the array behind a block's buffer.
\<close>

definition data :: "StringData \<Rightarrow> addr option" where
  "data d = map_option fst (buffer_m d)"

definition readable :: "cell list option \<Rightarrow> cell list" where
  "readable src = (case src of None \<Rightarrow> [] | Some bytes \<Rightarrow> bytes)"

definition cells :: "StringData \<Rightarrow> cell list" where
  "cells d = (case buffer_m d of None \<Rightarrow> [] | Some (a, cs) \<Rightarrow> cs)"

definition contents :: "StringData \<Rightarrow> cell list" where
  "contents d = take (unat (size_m d)) (cells d)"

text \<open>
  The data model's invariant of a block: \<open>capacity_m\<close> is the number of bytes allocated
  (none behind a null pointer), and the bytes in use fit.
\<close>

definition well_formed :: "StringData \<Rightarrow> bool" where
  "well_formed d = (length (cells d) = unat (capacity_m d) \<and> size_m d \<le> capacity_m d)"

subsection \<open>The handle\<close>

text \<open>
  A handle holds the address of its block; the blocks live in a store. Each operation
  allocates at most one block and at most one array: \<open>block_ptr\<close> and \<open>array_ptr\<close> are
  the addresses the two \<^verbatim>\<open>new\<close> expressions return, \<open>stale_capacity\<close> what the new
  block's \<open>capacity_m\<close> holds before its first \<open>Reserve\<close>.
\<close>

record RCString =
  data_m :: addr

type_synonym heap = "addr \<rightharpoonup> StringData"

record allocation =
  block_ptr :: addr
  array_ptr :: addr
  stale_capacity :: size_t

definition RCString_default :: "allocation \<Rightarrow> heap \<Rightarrow> fault + (RCString \<times> heap)" where
  "RCString_default al h =
     (case StringData_new (stale_capacity al) (array_ptr al) kBaseSize of
        Inl e \<Rightarrow> Inl e
      | Inr d \<Rightarrow> Inr (\<lparr>data_m = block_ptr al\<rparr>, h(block_ptr al \<mapsto> d)))"

definition RCString_copy :: "allocation \<Rightarrow> RCString \<Rightarrow> heap \<Rightarrow> fault + (RCString \<times> heap)" where
  "RCString_copy al other h =
     (case h (data_m other) of
        None \<Rightarrow> Inl BadAccess
      | Some od \<Rightarrow>
          if \<not> Unsharedable od
          then (case AddRef od of
                  Inl e \<Rightarrow> Inl e
                | Inr od' \<Rightarrow> Inr (\<lparr>data_m = data_m other\<rparr>, h(data_m other \<mapsto> od')))
          else (case Clone (stale_capacity al) (array_ptr al) (size_m od) od of
                  Inl e \<Rightarrow> Inl e
                | Inr nd \<Rightarrow> Inr (\<lparr>data_m = block_ptr al\<rparr>, h(block_ptr al \<mapsto> nd))))"

definition RCString_from_bytes ::
  "allocation \<Rightarrow> byte list \<Rightarrow> size_t \<Rightarrow> heap \<Rightarrow> fault + (RCString \<times> heap)" where
  "RCString_from_bytes al str len h =
     (case StringData_new (stale_capacity al) (array_ptr al) len of
        Inl e \<Rightarrow> Inl e
      | Inr d \<Rightarrow>
          (case CopyData (Some (map Some str)) len 0 d of
             Inl e \<Rightarrow> Inl e
           | Inr d' \<Rightarrow> Inr (\<lparr>data_m = block_ptr al\<rparr>, h(block_ptr al \<mapsto> d'))))"

text \<open>\<^verbatim>\<open>~StringData\<close> asserts that nobody holds the block any more.\<close>

definition StringData_delete :: "StringData \<Rightarrow> fault + unit" where
  "StringData_delete d =
     (if ref_count_m d = 0 \<or> ucast (ref_count_m d) = kUnsharedRefMark then Inr ()
      else Inl AssertFailed)"

definition RCString_destroy :: "RCString \<Rightarrow> heap \<Rightarrow> fault + heap" where
  "RCString_destroy s h =
     (case h (data_m s) of
        None \<Rightarrow> Inl BadAccess
      | Some d \<Rightarrow>
          (case Release d of
             Inl e \<Rightarrow> Inl e
           | Inr (last_owner, d') \<Rightarrow>
               if last_owner
               then (case StringData_delete d' of
                       Inl e \<Rightarrow> Inl e
                     | Inr u \<Rightarrow> Inr (h(data_m s := None)))
               else Inr (h(data_m s \<mapsto> d'))))"

text \<open>
  \<open>PrepareToModify\<close>: the first \<open>case\<close> is the \<^verbatim>\<open>if (!data_->Unique())\<close> with its two
  branches (the value \<open>Release\<close> returns in the first is dropped, as in the source), the
  second the \<^verbatim>\<open>if (make_unsharedable)\<close> on the block the handle holds afterwards.
\<close>

definition PrepareToModify ::
  "allocation \<Rightarrow> size_t \<Rightarrow> bool \<Rightarrow> RCString \<Rightarrow> heap \<Rightarrow> fault + (RCString \<times> heap)" where
  "PrepareToModify al required_capacity make_unsharedable s h =
     (case h (data_m s) of
        None \<Rightarrow> Inl BadAccess
      | Some d \<Rightarrow>
          (case (if \<not> Unique d
                 then (case Clone (stale_capacity al) (array_ptr al) required_capacity d of
                         Inl e \<Rightarrow> Inl e
                       | Inr new_data \<Rightarrow>
                           (case Release d of
                              Inl e \<Rightarrow> Inl e
                            | Inr (dropped, d') \<Rightarrow>
                                Inr (s\<lparr>data_m := block_ptr al\<rparr>,
                                     h(data_m s \<mapsto> d', block_ptr al \<mapsto> new_data))))
                 else (case Reserve (array_ptr al) required_capacity d of
                         Inl e \<Rightarrow> Inl e
                       | Inr d' \<Rightarrow> Inr (s, h(data_m s \<mapsto> d'))))
           of
             Inl e \<Rightarrow> Inl e
           | Inr (s', h') \<Rightarrow>
               (case h' (data_m s') of
                  None \<Rightarrow> Inl BadAccess
                | Some d2 \<Rightarrow>
                    (case (if make_unsharedable then MakeUnsharedable d2
                           else ResetSharedable d2)
                     of
                       Inl e \<Rightarrow> Inl e
                     | Inr d3 \<Rightarrow> Inr (s', h'(data_m s' \<mapsto> d3))))))"

text \<open>
  \<^verbatim>\<open>Append(const char* str, size_t length)\<close>. As in the constructor from bytes,
  \<open>str\<close> is the list of bytes readable at the pointer; copying more than there are
  reads outside a live object.
\<close>

definition Append ::
  "allocation \<Rightarrow> byte list \<Rightarrow> size_t \<Rightarrow> RCString \<Rightarrow> heap \<Rightarrow> fault + (RCString \<times> heap)" where
  "Append al str len s h =
     (case h (data_m s) of
        None \<Rightarrow> Inl BadAccess
      | Some d \<Rightarrow>
          (let new_size = size_m d + len
           in case PrepareToModify al new_size False s h of
                Inl e \<Rightarrow> Inl e
              | Inr (s', h') \<Rightarrow>
                  (case h' (data_m s') of
                     None \<Rightarrow> Inl BadAccess
                   | Some d' \<Rightarrow>
                       (case CopyData (Some (map Some str)) len (size_m d') d' of
                          Inl e \<Rightarrow> Inl e
                        | Inr d'' \<Rightarrow> Inr (s', h'(data_m s' \<mapsto> d''))))))"

text \<open>
  The non-const \<^verbatim>\<open>operator[]\<close>: \<^verbatim>\<open>PrepareToModify(size(), true)\<close>, then the
  reference \<^verbatim>\<open>*(data_->data() + pos)\<close>, returned as the array's address and the offset.
\<close>

definition index_mut ::
  "allocation \<Rightarrow> size_t \<Rightarrow> RCString \<Rightarrow> heap
     \<Rightarrow> fault + ((addr option \<times> size_t) \<times> RCString \<times> heap)" where
  "index_mut al pos s h =
     (case h (data_m s) of
        None \<Rightarrow> Inl BadAccess
      | Some d \<Rightarrow>
          (case PrepareToModify al (size_m d) True s h of
             Inl e \<Rightarrow> Inl e
           | Inr (s', h') \<Rightarrow>
               (case h' (data_m s') of
                  None \<Rightarrow> Inl BadAccess
                | Some d' \<Rightarrow> Inr ((data d', pos), s', h'))))"

text \<open>
  What the growth policy maintains for a block, and a run of \<open>Append\<close> calls on one
  handle, each with what its allocations return and the bytes it appends; the run stops
  at the first call that does not return.
\<close>

definition growth_invariant :: "StringData \<Rightarrow> bool" where
  "growth_invariant d = (well_formed d \<and> 4 dvd unat (capacity_m d))"

fun Append_all ::
  "(allocation \<times> byte list \<times> size_t) list \<Rightarrow> RCString \<Rightarrow> heap
     \<Rightarrow> fault + (RCString \<times> heap)" where
  "Append_all [] s h = Inr (s, h)"
| "Append_all ((al, str, len) # calls) s h =
     (case Append al str len s h of
        Inl e \<Rightarrow> Inl e
      | Inr (s', h') \<Rightarrow> Append_all calls s' h')"

subsection \<open>The blocking queue, used by one thread\<close>

text \<open>
  \<^verbatim>\<open>std::queue<T> buffer_\<close> as a list, oldest element first. With one thread the
  mutex is always free; \<open>Dequeue\<close> on an empty queue waits for a notification that no
  other thread will send: it does not return, which is the value \<open>None\<close>.
\<close>

record 'a BlockingQueue =
  queue_buffer_m :: "'a list"

definition BlockingQueue_new :: "'a BlockingQueue" where
  "BlockingQueue_new = \<lparr>queue_buffer_m = []\<rparr>"

definition Enqueue :: "'a \<Rightarrow> 'a BlockingQueue \<Rightarrow> 'a BlockingQueue" where
  "Enqueue ele q = q\<lparr>queue_buffer_m := queue_buffer_m q @ [ele]\<rparr>"

definition Dequeue :: "'a BlockingQueue \<Rightarrow> ('a \<times> 'a BlockingQueue) option" where
  "Dequeue q =
     (case queue_buffer_m q of
        [] \<Rightarrow> None
      | ele # rest \<Rightarrow> Some (ele, q\<lparr>queue_buffer_m := rest\<rparr>))"

definition queue_size :: "'a BlockingQueue \<Rightarrow> nat" where
  "queue_size q = length (queue_buffer_m q)"

text \<open>Enqueue each element of a list in turn; dequeue \<open>n\<close> times, collecting what comes out.\<close>

fun Enqueue_all :: "'a list \<Rightarrow> 'a BlockingQueue \<Rightarrow> 'a BlockingQueue" where
  "Enqueue_all [] q = q"
| "Enqueue_all (x # xs) q = Enqueue_all xs (Enqueue x q)"

fun Dequeue_times :: "nat \<Rightarrow> 'a BlockingQueue \<Rightarrow> ('a list \<times> 'a BlockingQueue) option" where
  "Dequeue_times 0 q = Some ([], q)"
| "Dequeue_times (Suc n) q =
     (case Dequeue q of
        None \<Rightarrow> None
      | Some (x, q') \<Rightarrow>
          (case Dequeue_times n q' of
             None \<Rightarrow> None
           | Some (xs, q'') \<Rightarrow> Some (x # xs, q'')))"

section \<open>Arithmetic of the growth policy\<close>

lemma round_up_nat:
  fixes n :: nat
  assumes "0 < n"
  shows "n - 1 - (n - 1) mod 4 + 4 = 4 * ((n + 3) div 4)"
proof -
  define m where "m = n - 1"
  have "n + 3 = m + 4"
    using assms by (simp add: m_def)
  then have e3: "(n + 3) div 4 = m div 4 + 1"
    by (simp only: div_add_self2)
  have e2: "m - m mod 4 = 4 * (m div 4)"
    by (simp add: minus_mod_eq_mult_div)
  have "n - 1 - (n - 1) mod 4 + 4 = m - m mod 4 + 4"
    by (simp only: m_def)
  also have "\<dots> = 4 * ((n + 3) div 4)"
    by (simp only: e2 e3) simp
  finally show ?thesis .
qed

lemma unat_RoundToMultiple:
  assumes "x \<noteq> 0" and "unat x \<le> 2 ^ 64 - 4"
  shows "unat (RoundToMultiple x kBaseSize) = 4 * ((unat x + 3) div 4)"
proof -
  define y where "y = x - 1 - (x - 1) mod 4"
  have pos: "0 < unat x"
    using assms(1) by (simp add: unat_gt_0)
  have a: "unat (x - 1) = unat x - 1"
    using assms(1) by (simp add: unat_minus_one)
  have b: "unat ((x - 1) mod 4) = (unat x - 1) mod 4"
    by (simp add: unat_mod a)
  have le: "(x - 1) mod 4 \<le> x - 1"
    by (simp add: word_le_nat_alt a b)
  have c: "unat y = unat x - 1 - (unat x - 1) mod 4"
    unfolding y_def using le by (simp add: unat_sub a b)
  have small: "unat y + unat (4 :: 64 word) < 2 ^ LENGTH(64)"
    using assms(2) pos unfolding c by simp
  have "RoundToMultiple x kBaseSize = y + 4"
    unfolding RoundToMultiple_def kBaseSize_def y_def by simp
  then have "unat (RoundToMultiple x kBaseSize) = unat (y + 4)"
    by simp
  also have "\<dots> = unat y + unat (4 :: 64 word)"
    using small by (rule unat_add_lem [THEN iffD1])
  also have "\<dots> = unat x - 1 - (unat x - 1) mod 4 + 4"
    by (simp only: c) simp
  also have "\<dots> = 4 * ((unat x + 3) div 4)"
    by (rule round_up_nat [OF pos])
  finally show ?thesis .
qed

lemma unat_grow:
  fixes c :: size_t
  assumes "unat c * 3 < 2 ^ 64"
  shows "unat (c * 3 div 2) = unat c * 3 div 2"
proof -
  have "unat c * unat (3 :: 64 word) < 2 ^ LENGTH(64)"
    using assms by simp
  then have "unat (c * 3) = unat c * unat (3 :: 64 word)"
    by (rule unat_mult_lem [THEN iffD1])
  then show ?thesis by (simp add: unat_div)
qed

lemma unat_max: "unat (max x y) = max (unat x) (unat y)"
  by (simp add: max_def word_le_nat_alt)

lemma unat_new_capacity:
  fixes c r :: size_t
  assumes "c < r" and "unat c * 3 < 2 ^ 64" and "unat r \<le> 2 ^ 64 - 4"
  shows "unat (RoundToMultiple (max (c * 3 div 2) r) kBaseSize)
           = 4 * ((max (unat c * 3 div 2) (unat r) + 3) div 4)"
proof -
  have "0 < unat r"
    using assms(1) by (simp add: word_less_nat_alt)
  then have "0 < unat (max (c * 3 div 2) r)"
    by (simp add: unat_max)
  then have nz: "max (c * 3 div 2) r \<noteq> 0"
    by (simp add: unat_gt_0)
  have eq: "unat (max (c * 3 div 2) r) = max (unat c * 3 div 2) (unat r)"
    using assms(2) by (simp add: unat_max unat_grow)
  have "max (unat c * 3 div 2) (unat r) \<le> 2 ^ 64 - 4"
    using assms(2,3) by simp
  then show ?thesis
    using unat_RoundToMultiple [OF nz] eq by simp
qed


section \<open>The reference count\<close>

lemma ucast_count_id: "(ucast (ucast (x :: 32 word) :: 64 word) :: 32 word) = x"
  by (rule ucast_up_ucast_id) (simp add: is_up)

lemma ucast_count_eq: "(ucast (x :: 32 word) :: 64 word) = ucast (y :: 32 word) \<longleftrightarrow> x = y"
  by (metis ucast_count_id)

lemma Unsharedable_iff: "Unsharedable d \<longleftrightarrow> ref_count_m d = - 1"
  unfolding Unsharedable_def kUnsharedRefMark_def by (rule ucast_count_eq)

lemma Unique_iff: "Unique d \<longleftrightarrow> ref_count_m d = 1 \<or> ref_count_m d = - 1"
  unfolding Unique_def kUnsharedRefMark_def by (simp add: ucast_count_eq)

lemma mark_as_count: "(ucast kUnsharedRefMark :: 32 word) = - 1"
  unfolding kUnsharedRefMark_def by (rule ucast_count_id)

lemma ThreadSafe_Unsharedable_eq: "ThreadSafe_Unsharedable d = Unsharedable d"
  by (simp add: ThreadSafe_Unsharedable_def Unsharedable_def load_def)

lemma ThreadSafe_Unique_eq: "ThreadSafe_Unique d = Unique d"
  by (simp add: ThreadSafe_Unique_def Unique_def load_def Let_def)

lemma Release_exclusive: "Unsharedable d \<Longrightarrow> Release d = Inr (True, d)"
  by (simp add: Release_def Unsharedable_iff word_gt_0)

lemma Release_shared:
  assumes "0 < ref_count_m d" and "\<not> Unsharedable d"
  shows "Release d = Inr (ref_count_m d = 1, d\<lparr>ref_count_m := ref_count_m d - 1\<rparr>)"
  using assms by (simp add: Release_def Let_def)

lemma ThreadSafe_Release_exclusive: "Unsharedable d \<Longrightarrow> ThreadSafe_Release d = Inr (True, d)"
  by (simp add: ThreadSafe_Release_def ThreadSafe_Unsharedable_eq Unsharedable_iff load_def
      word_gt_0)

lemma ThreadSafe_Release_shared:
  assumes "0 < ref_count_m d" and "\<not> Unsharedable d"
  shows "ThreadSafe_Release d = Inr (False, d\<lparr>ref_count_m := ref_count_m d - 1\<rparr>)"
  using assms
  by (auto simp add: ThreadSafe_Release_def ThreadSafe_Unsharedable_eq load_def fetch_sub_def
      Let_def)

lemma count_below_mark:
  assumes "unat (c :: 32 word) = Suc (Suc n)"
  shows "c \<noteq> 0" and "c \<noteq> 1" and "unat (c - 1) = Suc n" and "c - 1 \<noteq> - 1"
proof -
  show nz: "c \<noteq> 0" and "c \<noteq> 1"
    using assms by auto
  show m: "unat (c - 1) = Suc n"
    using unat_minus_one [OF nz] assms by simp
  have "unat c < 2 ^ LENGTH(32)"
    by (rule unsigned_less)
  then have "unat (c - 1) \<noteq> unat (- 1 :: 32 word)"
    using m assms by (simp add: unsigned_minus_1_eq_mask mask_eq_exp_minus_1)
  then show "c - 1 \<noteq> - 1"
    by auto
qed

text \<open>
  The holders of a shared block releasing it one after the other, non-synchronized:
  every call but the last returns false, the last returns true and leaves the count 0.
\<close>

lemma Release_times_last:
  assumes "unat (ref_count_m d) = Suc n" and "\<not> Unsharedable d"
  shows "Release_times (Suc n) d
           = Inr (replicate n False @ [True], d\<lparr>ref_count_m := 0\<rparr>)"
  using assms
proof (induction n arbitrary: d)
  case 0
  then have "unat (ref_count_m d) = unat (1 :: 32 word)"
    by simp
  then have one: "ref_count_m d = 1"
    by (simp only: word_unat_eq_iff [symmetric])
  then have "Release d = Inr (True, d\<lparr>ref_count_m := 0\<rparr>)"
    using Release_shared [of d] "0.prems"(2) by simp
  then show ?case by simp
next
  case (Suc n)
  let ?d' = "d\<lparr>ref_count_m := ref_count_m d - 1\<rparr>"
  note c = count_below_mark [OF Suc.prems(1)]
  have "0 < ref_count_m d"
    using c(1) by (simp add: word_gt_0)
  then have step: "Release d = Inr (False, ?d')"
    using Release_shared [of d] Suc.prems(2) c(2) by simp
  have "Release_times (Suc n) ?d' = Inr (replicate n False @ [True], ?d'\<lparr>ref_count_m := 0\<rparr>)"
    using Suc.IH [of ?d'] c(3,4) by (simp add: Unsharedable_iff)
  then show ?case
    using step by simp
qed

text \<open>The same holders under the synchronized policy: no call returns true.\<close>

lemma ThreadSafe_Release_times_none:
  assumes "unat (ref_count_m d) = Suc n" and "\<not> Unsharedable d"
  shows "ThreadSafe_Release_times (Suc n) d
           = Inr (replicate (Suc n) False, d\<lparr>ref_count_m := 0\<rparr>)"
  using assms
proof (induction n arbitrary: d)
  case 0
  then have "unat (ref_count_m d) = unat (1 :: 32 word)"
    by simp
  then have one: "ref_count_m d = 1"
    by (simp only: word_unat_eq_iff [symmetric])
  then have "ThreadSafe_Release d = Inr (False, d\<lparr>ref_count_m := 0\<rparr>)"
    using ThreadSafe_Release_shared [of d] "0.prems"(2) by simp
  then show ?case by simp
next
  case (Suc n)
  let ?d' = "d\<lparr>ref_count_m := ref_count_m d - 1\<rparr>"
  note c = count_below_mark [OF Suc.prems(1)]
  have "0 < ref_count_m d"
    using c(1) by (simp add: word_gt_0)
  then have step: "ThreadSafe_Release d = Inr (False, ?d')"
    using ThreadSafe_Release_shared [of d] Suc.prems(2) by simp
  have "ThreadSafe_Release_times (Suc n) ?d'
          = Inr (replicate (Suc n) False, ?d'\<lparr>ref_count_m := 0\<rparr>)"
    using Suc.IH [of ?d'] c(3,4) by (simp add: Unsharedable_iff)
  then show ?case
    using step by simp
qed

text \<open>
  C1. \<open>Release\<close> returns true exactly when its decrement reaches 0, under both policies.
  For the synchronized policy this fails at the sole owner of a block (count 1):
  \<open>fetch_sub\<close> returns the count it found, 1, which the code compares with 0, so the
  call returns false and leaves the count 0. The non-synchronized \<open>Release\<close> returns
  true on the same block.
\<close>

theorem ThreadSafe_Release_sole_owner:
  "ThreadSafe_Release \<lparr>buffer_m = None, capacity_m = 0, size_m = 0, ref_count_m = 1\<rparr>
     = Inr (False, \<lparr>buffer_m = None, capacity_m = 0, size_m = 0, ref_count_m = 0\<rparr>)
   \<and> Release \<lparr>buffer_m = None, capacity_m = 0, size_m = 0, ref_count_m = 1\<rparr>
     = Inr (True, \<lparr>buffer_m = None, capacity_m = 0, size_m = 0, ref_count_m = 0\<rparr>)"
  by (simp add: ThreadSafe_Release_def ThreadSafe_Unsharedable_eq Release_def
      Unsharedable_iff load_def fetch_sub_def)

section \<open>The blocking queue\<close>

lemma Enqueue_all_buffer: "queue_buffer_m (Enqueue_all xs q) = queue_buffer_m q @ xs"
  by (induction xs arbitrary: q) (simp_all add: Enqueue_def)

lemma Dequeue_times_prefix:
  "queue_buffer_m q = xs @ ys
     \<Longrightarrow> Dequeue_times (length xs) q = Some (xs, q\<lparr>queue_buffer_m := ys\<rparr>)"
proof (induction xs arbitrary: q)
  case Nil
  then show ?case by simp
next
  case (Cons x xs)
  have "Dequeue q = Some (x, q\<lparr>queue_buffer_m := xs @ ys\<rparr>)"
    using Cons.prems by (simp add: Dequeue_def)
  moreover have "Dequeue_times (length xs) (q\<lparr>queue_buffer_m := xs @ ys\<rparr>)
                   = Some (xs, q\<lparr>queue_buffer_m := ys\<rparr>)"
    using Cons.IH [of "q\<lparr>queue_buffer_m := xs @ ys\<rparr>"] by simp
  ultimately show ?case by simp
qed

text \<open>
  C9. Used by one thread, the queue is first in, first out: after \<open>Enqueue(1)\<close>,
  \<open>Enqueue(2)\<close>, \<open>Enqueue(3)\<close>, three calls of \<open>Dequeue\<close> return 1, 2, 3 in that order
  and leave the queue empty; whatever was enqueued on a new queue comes out in the order
  it went in; and on any queue \<open>Dequeue\<close> removes and returns the oldest element while
  \<open>Enqueue\<close> adds behind the newest.
\<close>

theorem BlockingQueue_fifo:
  "Dequeue (Enqueue 3 (Enqueue 2 (Enqueue (1 :: int) BlockingQueue_new)))
     = Some (1, \<lparr>queue_buffer_m = [2, 3]\<rparr>)
   \<and> Dequeue \<lparr>queue_buffer_m = [2, 3 :: int]\<rparr> = Some (2, \<lparr>queue_buffer_m = [3]\<rparr>)
   \<and> Dequeue \<lparr>queue_buffer_m = [3 :: int]\<rparr> = Some (3, BlockingQueue_new)
   \<and> Dequeue_times (length xs) (Enqueue_all xs BlockingQueue_new)
       = Some (xs, BlockingQueue_new)
   \<and> Dequeue (q\<lparr>queue_buffer_m := oldest # newer\<rparr>)
       = Some (oldest, q\<lparr>queue_buffer_m := newer\<rparr>)
   \<and> queue_buffer_m (Enqueue ele q) = queue_buffer_m q @ [ele]"
proof -
  have "queue_buffer_m (Enqueue_all xs BlockingQueue_new) = xs @ []"
    by (simp add: Enqueue_all_buffer BlockingQueue_new_def)
  then have "Dequeue_times (length xs) (Enqueue_all xs BlockingQueue_new)
               = Some (xs, (Enqueue_all xs BlockingQueue_new)\<lparr>queue_buffer_m := []\<rparr>)"
    by (rule Dequeue_times_prefix)
  then have "Dequeue_times (length xs) (Enqueue_all xs BlockingQueue_new)
               = Some (xs, BlockingQueue_new)"
    by (simp add: BlockingQueue_new_def)
  then show ?thesis
    by (simp add: Dequeue_def Enqueue_def BlockingQueue_new_def)
qed

section \<open>Copying bytes\<close>

lemma memcpy_s_nothing: "memcpy_s dest off destsz src 0 = Inr dest"
  by (simp add: memcpy_s_def)

lemma memcpy_s_copies:
  assumes "count \<le> destsz" and "unat count \<le> length bytes"
    and "off + unat count \<le> length cs"
  shows "memcpy_s (Some (a, cs)) off destsz (Some bytes) count
           = Inr (Some (a, take off cs @ take (unat count) bytes @ drop (off + unat count) cs))"
proof (cases "count = 0")
  case True
  then show ?thesis by (simp add: memcpy_s_def)
next
  case False
  then show ?thesis using assms by (simp add: memcpy_s_def not_less [symmetric])
qed

lemma cells_readable: "readable (map_option snd (buffer_m d)) = cells d"
  by (simp add: readable_def cells_def split: option.splits prod.splits)

lemma null_buffer_cells: "buffer_m d = None \<Longrightarrow> cells d = []"
  by (simp add: cells_def)

lemma buffer_cells: "buffer_m d = Some (a, cs) \<Longrightarrow> cells d = cs"
  by (simp add: cells_def)

text \<open>What \<open>memcpy_s\<close> does to a block's buffer when the bytes are there and fit.\<close>

lemma memcpy_s_into_buffer:
  assumes "count \<le> destsz" and "unat count \<le> length (readable src)"
    and "off + unat count \<le> length (cells d)"
  shows "memcpy_s (buffer_m d) off destsz src count
           = Inr (map_option
                   (\<lambda>(a, cs). (a, take off cs @ take (unat count) (readable src)
                                    @ drop (off + unat count) cs))
                   (buffer_m d))"
proof (cases "count = 0")
  case True
  then show ?thesis
    by (cases "buffer_m d") (auto simp: memcpy_s_def)
next
  case False
  then have pos: "0 < unat count"
    by (simp add: unat_gt_0)
  obtain a cs where buf: "buffer_m d = Some (a, cs)"
    using assms(3) pos by (cases "buffer_m d") (auto simp: cells_def)
  obtain bytes where src: "src = Some bytes"
    using assms(2) pos by (cases src) (auto simp: readable_def)
  show ?thesis
    using assms memcpy_s_copies [of count destsz bytes off cs a]
    by (simp add: buf src readable_def cells_def)
qed


section \<open>Blocks\<close>

lemma round_up_ge: "(x :: nat) \<le> 4 * ((x + 3) div 4)"
  by arith

lemma round_up_less: "4 * (((x :: nat) + 3) div 4) < x + 4"
  by arith

lemma well_formed_cells: "well_formed d \<Longrightarrow> length (cells d) = unat (capacity_m d)"
  by (simp add: well_formed_def)

lemma well_formed_size: "well_formed d \<Longrightarrow> unat (size_m d) \<le> unat (capacity_m d)"
  by (simp add: well_formed_def word_le_nat_alt)

lemma Reserve_enough: "required_capacity \<le> capacity_m d \<Longrightarrow> Reserve p required_capacity d = Inr d"
  by (simp add: Reserve_def)

text \<open>
  Growing a block whose arithmetic does not wrap around: the new array holds the bytes
  in use, then cells nothing was written to.
\<close>

lemma Reserve_grows:
  assumes wf: "well_formed d" and less: "capacity_m d < r"
    and c3: "unat (capacity_m d) * 3 < 2 ^ 64" and r4: "unat r \<le> 2 ^ 64 - 4"
  defines "new_capacity \<equiv> RoundToMultiple (max (capacity_m d * 3 div 2) r) kBaseSize"
  shows "Reserve p r d
           = Inr (d\<lparr>buffer_m := Some (p, contents d
                                         @ replicate (unat new_capacity - unat (size_m d)) None),
                   capacity_m := new_capacity\<rparr>)"
    and "unat new_capacity = 4 * ((max (unat (capacity_m d) * 3 div 2) (unat r) + 3) div 4)"
proof -
  show n: "unat new_capacity = 4 * ((max (unat (capacity_m d) * 3 div 2) (unat r) + 3) div 4)"
    unfolding new_capacity_def using less c3 r4 by (rule unat_new_capacity)
  have "max (unat (capacity_m d) * 3 div 2) (unat r) \<le> unat new_capacity"
    unfolding n by (rule round_up_ge)
  then have "unat r \<le> unat new_capacity"
    by simp
  moreover have "unat (capacity_m d) < unat r"
    using less by (simp add: word_less_nat_alt)
  ultimately have fits: "unat (size_m d) \<le> unat new_capacity"
    using well_formed_size [OF wf] by simp
  then have le: "size_m d \<le> new_capacity"
    by (simp add: word_le_nat_alt)
  have src: "unat (size_m d) \<le> length (readable (map_option snd (buffer_m d)))"
    using wf by (simp add: cells_readable well_formed_cells well_formed_size)
  have "memcpy_s (Some (p, replicate (unat new_capacity) None)) 0 new_capacity
          (map_option snd (buffer_m d)) (size_m d)
        = Inr (Some (p, contents d @ replicate (unat new_capacity - unat (size_m d)) None))"
    using memcpy_s_into_buffer
      [of "size_m d" new_capacity "map_option snd (buffer_m d)" 0
          "\<lparr>buffer_m = Some (p, replicate (unat new_capacity) None), capacity_m = 0,
            size_m = 0, ref_count_m = 0\<rparr>"]
      le src fits
    by (simp add: cells_def cells_readable contents_def)
  then show "Reserve p r d
           = Inr (d\<lparr>buffer_m := Some (p, contents d
                                         @ replicate (unat new_capacity - unat (size_m d)) None),
                   capacity_m := new_capacity\<rparr>)"
    using less by (simp add: Reserve_def Let_def new_capacity_def not_le [symmetric])
qed


lemma unat_plus_fits:
  fixes pos len c :: size_t
  assumes "unat pos + unat len \<le> unat c"
  shows "unat (pos + len) = unat pos + unat len"
proof -
  have "unat c < 2 ^ LENGTH(64)"
    by (rule unsigned_less)
  then have "unat pos + unat len < 2 ^ LENGTH(64)"
    using assms by simp
  then show ?thesis
    by (rule unat_add_lem [THEN iffD1])
qed

text \<open>\<open>CopyData\<close> under its asserted preconditions, with the source bytes there.\<close>

lemma CopyData_writes:
  assumes wf: "well_formed d" and u: "Unique d"
    and pos: "unat pos \<le> unat (size_m d)"
    and fits: "unat pos + unat len \<le> unat (capacity_m d)"
    and src: "unat len \<le> length (readable src)"
  shows "\<exists>d'. CopyData src len pos d = Inr d'
           \<and> cells d' = take (unat pos) (cells d) @ take (unat len) (readable src)
                          @ drop (unat pos + unat len) (cells d)
           \<and> data d' = data d
           \<and> capacity_m d' = capacity_m d
           \<and> ref_count_m d' = ref_count_m d
           \<and> size_m d' = max (pos + len) (size_m d)
           \<and> unat (size_m d') = max (unat pos + unat len) (unat (size_m d))
           \<and> well_formed d'"
proof -
  let ?w = "\<lambda>(a :: addr, cs). (a, take (unat pos) cs @ take (unat len) (readable src)
                                    @ drop (unat pos + unat len) cs)"
  let ?d' = "d\<lparr>buffer_m := map_option ?w (buffer_m d), size_m := max (pos + len) (size_m d)\<rparr>"
  have sum: "unat (pos + len) = unat pos + unat len"
    using fits by (rule unat_plus_fits)
  have a1: "pos \<le> size_m d"
    using pos by (simp add: word_le_nat_alt)
  have a2: "pos + len \<le> capacity_m d"
    using fits by (simp add: word_le_nat_alt sum)
  have a3: "len \<le> capacity_m d"
    using fits by (simp add: word_le_nat_alt)
  have room: "unat pos + unat len \<le> length (cells d)"
    using fits wf by (simp add: well_formed_cells)
  have "memcpy_s (buffer_m d) (unat pos) (capacity_m d) src len
          = Inr (map_option ?w (buffer_m d))"
    using a3 src room by (rule memcpy_s_into_buffer)
  then have run: "CopyData src len pos d = Inr ?d'"
    using u a1 a2 by (simp add: CopyData_def)
  have cells: "cells ?d' = take (unat pos) (cells d) @ take (unat len) (readable src)
                           @ drop (unat pos + unat len) (cells d)"
  proof (cases "buffer_m d")
    case None
    then have "unat len = 0"
      using room by (simp add: cells_def)
    then show ?thesis using None by (simp add: cells_def)
  next
    case (Some b)
    then show ?thesis by (cases b) (simp add: cells_def)
  qed
  have size: "unat (size_m ?d') = max (unat pos + unat len) (unat (size_m d))"
    by (simp add: unat_max sum)
  have "length (cells ?d') = unat (capacity_m d)"
    unfolding cells using src room wf by (simp add: well_formed_cells)
  moreover have "unat (size_m ?d') \<le> unat (capacity_m d)"
    unfolding size using fits well_formed_size [OF wf] by simp
  ultimately have "well_formed ?d'"
    by (simp add: well_formed_def word_le_nat_alt)
  moreover have "data ?d' = data d"
    by (cases "buffer_m d") (auto simp: data_def)
  ultimately show ?thesis
    using run cells size by simp
qed


lemma Unique_one: "ref_count_m d = 1 \<Longrightarrow> Unique d"
  by (simp add: Unique_def)

text \<open>
  A new block when the storage it is built in reads zero where \<open>capacity_\<close> lies, for a
  capacity that rounds up without wrapping around.
\<close>

lemma StringData_new_zeroed:
  assumes "unat c \<le> 2 ^ 64 - 4"
  shows "\<exists>d. StringData_new 0 p c = Inr d
           \<and> well_formed d \<and> size_m d = 0 \<and> ref_count_m d = 1
           \<and> unat (capacity_m d) = 4 * ((unat c + 3) div 4)
           \<and> data d = (if c = 0 then None else Some p)
           \<and> cells d = replicate (unat (capacity_m d)) None"
proof (cases "c = 0")
  case True
  then show ?thesis
    by (simp add: StringData_new_def Reserve_def well_formed_def cells_def data_def)
next
  case False
  let ?blank = "\<lparr>buffer_m = None, capacity_m = 0, size_m = 0, ref_count_m = 1 :: 32 word\<rparr>"
  let ?n = "RoundToMultiple (max (capacity_m ?blank * 3 div 2) c) kBaseSize"
  have wf: "well_formed ?blank"
    by (simp add: well_formed_def cells_def)
  have less: "capacity_m ?blank < c"
    using False by (simp add: word_gt_0)
  have c3: "unat (capacity_m ?blank) * 3 < 2 ^ 64"
    by simp
  have run: "Reserve p c ?blank
           = Inr (?blank\<lparr>buffer_m := Some (p, contents ?blank
                                         @ replicate (unat ?n - unat (size_m ?blank)) None),
                   capacity_m := ?n\<rparr>)"
    using wf less c3 assms by (rule Reserve_grows(1))
  have n: "unat ?n = 4 * ((max (unat (capacity_m ?blank) * 3 div 2) (unat c) + 3) div 4)"
    using wf less c3 assms by (rule Reserve_grows(2))
  show ?thesis
    using False run n
    by (simp add: StringData_new_def well_formed_def cells_def data_def contents_def)
qed

lemma StringData_new_zeroed_capacity:
  assumes "unat c \<le> 2 ^ 64 - 4" and "StringData_new 0 p c = Inr d"
  shows "unat c \<le> unat (capacity_m d)" and "4 dvd unat (capacity_m d)"
proof -
  have n: "unat (capacity_m d) = 4 * ((unat c + 3) div 4)"
    using StringData_new_zeroed [OF assms(1), of p] assms(2) by auto
  show "unat c \<le> unat (capacity_m d)"
    unfolding n by (rule round_up_ge)
  show "4 dvd unat (capacity_m d)"
    unfolding n by simp
qed

text \<open>\<open>Clone\<close> of a well-formed block into zeroed storage.\<close>

lemma Clone_zeroed:
  assumes wf: "well_formed d" and m: "unat (max r (capacity_m d)) \<le> 2 ^ 64 - 4"
  shows "\<exists>nd. Clone 0 p r d = Inr nd
           \<and> well_formed nd \<and> size_m nd = size_m d \<and> contents nd = contents d
           \<and> ref_count_m nd = 1
           \<and> unat (capacity_m nd) = 4 * ((unat (max r (capacity_m d)) + 3) div 4)
           \<and> data nd = (if max r (capacity_m d) = 0 then None else Some p)"
proof -
  let ?m = "max r (capacity_m d)"
  obtain b where new: "StringData_new 0 p ?m = Inr b"
    and b: "well_formed b" "size_m b = 0" "ref_count_m b = 1"
      "unat (capacity_m b) = 4 * ((unat ?m + 3) div 4)"
      "data b = (if ?m = 0 then None else Some p)"
    using StringData_new_zeroed [OF m, of p] by blast
  have room: "unat ?m \<le> unat (capacity_m b)"
    using m new by (rule StringData_new_zeroed_capacity(1))
  have "unat (capacity_m d) \<le> unat ?m"
    by (simp add: unat_max)
  then have fits: "unat (0 :: size_t) + unat (size_m d) \<le> unat (capacity_m b)"
    using room well_formed_size [OF wf] by simp
  have src: "unat (size_m d) \<le> length (readable (map_option snd (buffer_m d)))"
    using wf by (simp add: cells_readable well_formed_cells well_formed_size)
  have pos: "unat (0 :: size_t) \<le> unat (size_m b)"
    by simp
  obtain nd where run: "CopyData (map_option snd (buffer_m d)) (size_m d) 0 b = Inr nd"
    and nd: "cells nd = take (unat (0 :: size_t)) (cells b)
                          @ take (unat (size_m d)) (readable (map_option snd (buffer_m d)))
                          @ drop (unat (0 :: size_t) + unat (size_m d)) (cells b)"
      "data nd = data b" "capacity_m nd = capacity_m b" "ref_count_m nd = ref_count_m b"
      "size_m nd = max (0 + size_m d) (size_m b)" "well_formed nd"
    using CopyData_writes [OF b(1) Unique_one [OF b(3)] pos fits src] by blast
  have size: "size_m nd = size_m d"
    using nd(5) b(2) by simp
  have "length (cells d) = unat (capacity_m d)"
    using wf by (rule well_formed_cells)
  then have "contents nd = contents d"
    using well_formed_size [OF wf]
    by (simp add: contents_def size nd(1) cells_readable)
  then show ?thesis
    using new run nd b size by (simp add: Clone_def)
qed

lemma ThreadSafe_CopyData_eq: "ThreadSafe_CopyData = CopyData"
  by (intro ext) (simp add: ThreadSafe_CopyData_def CopyData_def ThreadSafe_Unique_eq)

lemma ThreadSafe_Reserve_eq: "ThreadSafe_Reserve = Reserve"
  by (intro ext) (simp add: ThreadSafe_Reserve_def Reserve_def)

lemma written_cell:
  assumes "p + n \<le> length cs" and "n \<le> length bytes" and "i < length cs"
  shows "(take p cs @ take n bytes @ drop (p + n) cs) ! i
           = (if p \<le> i \<and> i < p + n then bytes ! (i - p) else cs ! i)"
  using assms by (auto simp add: nth_append min_def)

text \<open>
  C7. For a block whose \<open>capacity_\<close> is the size of its array, under the preconditions
  \<open>Unique()\<close>, \<open>pos \<le> size\<close> and \<open>pos + length \<le> capacity\<close>, and with \<open>length\<close>
  bytes readable at \<open>str\<close>, \<open>CopyData\<close> (of either class) returns; it leaves the array
  where it is and as long as it was, puts the bytes of \<open>str\<close> into the cells
  \<open>pos, \<dots>, pos + length - 1\<close> and changes no other cell; the size becomes
  \<open>max (pos + length) size\<close>; the capacity and the count are unchanged.
\<close>

theorem CopyData_writes_range:
  assumes "well_formed d" and "Unique d"
    and "unat pos \<le> unat (size_m d)"
    and "unat pos + unat len \<le> unat (capacity_m d)"
    and "unat len \<le> length str"
  shows "\<exists>d'. CopyData (Some str) len pos d = Inr d'
           \<and> ThreadSafe_CopyData (Some str) len pos d = Inr d'
           \<and> data d' = data d
           \<and> length (cells d') = length (cells d)
           \<and> (\<forall>i < length (cells d).
                 cells d' ! i = (if unat pos \<le> i \<and> i < unat pos + unat len
                                 then str ! (i - unat pos) else cells d ! i))
           \<and> unat (size_m d') = max (unat pos + unat len) (unat (size_m d))
           \<and> capacity_m d' = capacity_m d
           \<and> ref_count_m d' = ref_count_m d"
proof -
  have src: "unat len \<le> length (readable (Some str))"
    using assms(5) by (simp add: readable_def)
  obtain d' where run: "CopyData (Some str) len pos d = Inr d'"
    and cells: "cells d' = take (unat pos) (cells d) @ take (unat len) (readable (Some str))
                             @ drop (unat pos + unat len) (cells d)"
    and rest: "data d' = data d" "capacity_m d' = capacity_m d"
      "ref_count_m d' = ref_count_m d"
      "unat (size_m d') = max (unat pos + unat len) (unat (size_m d))"
    using CopyData_writes [OF assms(1-4) src] by blast
  have room: "unat pos + unat len \<le> length (cells d)"
    using assms(1,4) by (simp add: well_formed_cells)
  have len: "length (cells d') = length (cells d)"
    unfolding cells using room assms(5) by (simp add: readable_def)
  have each: "\<forall>i < length (cells d).
                 cells d' ! i = (if unat pos \<le> i \<and> i < unat pos + unat len
                                 then str ! (i - unat pos) else cells d ! i)"
    unfolding cells using written_cell [OF room assms(5)] by (simp add: readable_def)
  show ?thesis
    using run len each rest by (simp add: ThreadSafe_CopyData_eq)
qed

theorem CopyData_writes_range_witness:
  "well_formed \<lparr>buffer_m = Some (7, [Some 1, Some 2, None, None]), capacity_m = 4,
                size_m = 2, ref_count_m = 1\<rparr>
   \<and> CopyData (Some [Some 9, Some 8]) 2 1
        \<lparr>buffer_m = Some (7, [Some 1, Some 2, None, None]), capacity_m = 4,
         size_m = 2, ref_count_m = 1\<rparr>
      = Inr \<lparr>buffer_m = Some (7, [Some 1, Some 9, Some 8, None]), capacity_m = 4,
             size_m = 3, ref_count_m = 1\<rparr>
   \<and> (\<exists>d'. CopyData (Some [Some 9, Some 8]) 2 1
              \<lparr>buffer_m = Some (7, [Some 1, Some 2, None, None]), capacity_m = 4,
               size_m = 2, ref_count_m = 1\<rparr> = Inr d'
           \<and> unat (size_m d') = 3 \<and> capacity_m d' = 4 \<and> data d' = Some 7)"
proof -
  let ?d = "\<lparr>buffer_m = Some (7 :: addr, [Some (1 :: byte), Some 2, None, None]),
             capacity_m = 4 :: size_t, size_m = 2 :: size_t, ref_count_m = 1 :: 32 word\<rparr>"
  have wf: "well_formed ?d"
    by (simp add: well_formed_def cells_def)
  have u: "Unique ?d"
    by (simp add: Unique_def)
  have run: "CopyData (Some [Some 9, Some 8]) 2 1 ?d
      = Inr \<lparr>buffer_m = Some (7, [Some 1, Some 9, Some 8, None]), capacity_m = 4,
             size_m = 3, ref_count_m = 1\<rparr>"
    by (simp add: CopyData_def Unique_def memcpy_s_def)
  show ?thesis
    using wf run
      CopyData_writes_range [OF wf u, of 1 2 "[Some 9, Some 8]"]
    by (simp add: data_def)
qed


lemma contents_prefix:
  assumes "well_formed d"
  shows "take (unat (size_m d)) (contents d @ rest) = contents d"
proof -
  have "length (contents d) = unat (size_m d)"
    using assms by (simp add: contents_def well_formed_cells well_formed_size)
  then show ?thesis by simp
qed

text \<open>
  C4, amended. \<open>Reserve\<close> (of either class) changes nothing when
  \<open>required_capacity \<le> capacity\<close>. Otherwise, for a block whose \<open>capacity_\<close> is the size
  of its array, and as long as \<open>capacity * 3\<close> and the rounding do not exceed the range
  of \<open>size_t\<close> (\<open>capacity * 3 < 2^64\<close>, \<open>required_capacity \<le> 2^64 - 4\<close>), it returns with
  a new array whose capacity is the least multiple of 4 that is at least
  \<open>max (capacity * 3 div 2) required_capacity\<close> (integer division, as the code has it);
  the bytes in use and the size are unchanged, and the capacity has not decreased.
\<close>

theorem Reserve_grows_rounded:
  assumes "well_formed d"
  shows "(r \<le> capacity_m d \<longrightarrow> Reserve p r d = Inr d \<and> ThreadSafe_Reserve p r d = Inr d)
       \<and> (capacity_m d < r \<and> unat (capacity_m d) * 3 < 2 ^ 64 \<and> unat r \<le> 2 ^ 64 - 4 \<longrightarrow>
            (\<exists>d'. Reserve p r d = Inr d' \<and> ThreadSafe_Reserve p r d = Inr d'
               \<and> 4 dvd unat (capacity_m d')
               \<and> max (unat (capacity_m d) * 3 div 2) (unat r) \<le> unat (capacity_m d')
               \<and> unat (capacity_m d') < max (unat (capacity_m d) * 3 div 2) (unat r) + 4
               \<and> size_m d' = size_m d
               \<and> contents d' = contents d
               \<and> capacity_m d \<le> capacity_m d'
               \<and> data d' = Some p
               \<and> well_formed d'
               \<and> ref_count_m d' = ref_count_m d))"
proof (intro conjI impI)
  assume "r \<le> capacity_m d"
  then show "Reserve p r d = Inr d" by (rule Reserve_enough)
  then show "ThreadSafe_Reserve p r d = Inr d" by (simp add: ThreadSafe_Reserve_eq)
next
  assume a: "capacity_m d < r \<and> unat (capacity_m d) * 3 < 2 ^ 64 \<and> unat r \<le> 2 ^ 64 - 4"
  let ?m = "max (unat (capacity_m d) * 3 div 2) (unat r)"
  let ?n = "RoundToMultiple (max (capacity_m d * 3 div 2) r) kBaseSize"
  let ?d' = "d\<lparr>buffer_m := Some (p, contents d @ replicate (unat ?n - unat (size_m d)) None),
               capacity_m := ?n\<rparr>"
  have run: "Reserve p r d = Inr ?d'"
    using assms a by (intro Reserve_grows(1)) simp_all
  have n: "unat ?n = 4 * ((?m + 3) div 4)"
    using assms a by (intro Reserve_grows(2)) simp_all
  have ge: "?m \<le> unat ?n"
    unfolding n by (rule round_up_ge)
  have lt: "unat ?n < ?m + 4"
    unfolding n by (rule round_up_less)
  have "unat (capacity_m d) < unat r"
    using a by (simp add: word_less_nat_alt)
  then have grown: "unat (capacity_m d) \<le> unat ?n"
    using ge by simp
  then have fits: "unat (size_m d) \<le> unat ?n"
    using well_formed_size [OF assms] by simp
  have "length (contents d) = unat (size_m d)"
    using assms by (simp add: contents_def well_formed_cells well_formed_size)
  then have wf': "well_formed ?d'"
    using fits by (simp add: well_formed_def cells_def word_le_nat_alt)
  have "contents ?d' = take (unat (size_m ?d')) (cells ?d')"
    by (rule contents_def)
  also have "\<dots> = take (unat (size_m d))
                      (contents d @ replicate (unat ?n - unat (size_m d)) None)"
    by (simp add: cells_def)
  also have "\<dots> = contents d"
    by (rule contents_prefix [OF assms])
  finally have same: "contents ?d' = contents d" .
  have "4 dvd unat ?n"
    unfolding n by simp
  then show "\<exists>d'. Reserve p r d = Inr d' \<and> ThreadSafe_Reserve p r d = Inr d'
               \<and> 4 dvd unat (capacity_m d')
               \<and> max (unat (capacity_m d) * 3 div 2) (unat r) \<le> unat (capacity_m d')
               \<and> unat (capacity_m d') < max (unat (capacity_m d) * 3 div 2) (unat r) + 4
               \<and> size_m d' = size_m d
               \<and> contents d' = contents d
               \<and> capacity_m d \<le> capacity_m d'
               \<and> data d' = Some p
               \<and> well_formed d'
               \<and> ref_count_m d' = ref_count_m d"
    using run ge lt grown wf' same
    by (intro exI [of _ ?d']) (simp add: ThreadSafe_Reserve_eq word_le_nat_alt data_def)
qed

theorem Reserve_grows_rounded_witness:
  "well_formed \<lparr>buffer_m = Some (7, [Some 1, Some 2, None, None]), capacity_m = 4,
                size_m = 2, ref_count_m = 1\<rparr>
   \<and> Reserve 8 3 \<lparr>buffer_m = Some (7, [Some 1, Some 2, None, None]), capacity_m = 4,
                   size_m = 2, ref_count_m = 1\<rparr>
      = Inr \<lparr>buffer_m = Some (7, [Some 1, Some 2, None, None]), capacity_m = 4,
             size_m = 2, ref_count_m = 1\<rparr>
   \<and> (\<exists>d'. Reserve 8 9 \<lparr>buffer_m = Some (7, [Some 1, Some 2, None, None]), capacity_m = 4,
                          size_m = 2, ref_count_m = 1\<rparr> = Inr d'
          \<and> unat (capacity_m d') = 12 \<and> size_m d' = 2
          \<and> contents d' = [Some 1, Some 2] \<and> data d' = Some 8)"
proof -
  let ?d = "\<lparr>buffer_m = Some (7 :: addr, [Some (1 :: byte), Some 2, None, None]),
             capacity_m = 4 :: size_t, size_m = 2 :: size_t, ref_count_m = 1 :: 32 word\<rparr>"
  have wf: "well_formed ?d"
    by (simp add: well_formed_def cells_def)
  have c: "contents ?d = [Some 1, Some 2]"
    by (simp add: contents_def cells_def)
  have "\<exists>d'. Reserve 8 9 ?d = Inr d'
          \<and> 4 dvd unat (capacity_m d') \<and> 9 \<le> unat (capacity_m d')
          \<and> unat (capacity_m d') < 13 \<and> size_m d' = 2
          \<and> contents d' = [Some 1, Some 2] \<and> data d' = Some 8"
    using Reserve_grows_rounded [OF wf, of 9 8] c by auto
  then obtain d' where d': "Reserve 8 9 ?d = Inr d'"
      "4 dvd unat (capacity_m d')" "9 \<le> unat (capacity_m d')" "unat (capacity_m d') < 13"
      "size_m d' = 2" "contents d' = [Some 1, Some 2]" "data d' = Some 8"
    by blast
  have "unat (capacity_m d') = 12"
    using d'(2-4) by presburger
  then show ?thesis
    using wf d' Reserve_grows_rounded [OF wf, of 3 8] by simp
qed

text \<open>
  The claim as stated fails where the rounding wraps around: asked for \<open>2^64 - 1\<close> bytes,
  a block of capacity 4 ends with capacity 0, which is less than before and is not
  \<open>max (4 * 1.5) (2^64 - 1)\<close> rounded up.
\<close>

theorem Reserve_wraps_counterexample:
  "Reserve 8 0xFFFFFFFFFFFFFFFF
     \<lparr>buffer_m = Some (7, [None, None, None, None]), capacity_m = 4, size_m = 0,
      ref_count_m = 1\<rparr>
   = Inr \<lparr>buffer_m = Some (8, []), capacity_m = 0, size_m = 0, ref_count_m = 1\<rparr>
   \<and> well_formed \<lparr>buffer_m = Some (7, [None, None, None, None]), capacity_m = 4,
                   size_m = 0, ref_count_m = 1\<rparr>"
  by (simp add: Reserve_def RoundToMultiple_def kBaseSize_def memcpy_s_def well_formed_def
      cells_def Let_def)

section \<open>What the block operations keep\<close>

lemma replicate_numeral_eq: "replicate (numeral k) x = x # replicate (pred_numeral k) x"
  by (simp add: numeral_eq_Suc)

lemma Reserve_ref_count: "Reserve p r d = Inr d' \<Longrightarrow> ref_count_m d' = ref_count_m d"
  by (auto simp: Reserve_def Let_def split: if_splits sum.splits)

lemma CopyData_ref_count:
  "CopyData src len pos d = Inr d' \<Longrightarrow> ref_count_m d' = ref_count_m d"
  by (auto simp: CopyData_def split: if_splits sum.splits)

lemma StringData_new_ref_count: "StringData_new stale p c = Inr d \<Longrightarrow> ref_count_m d = 1"
  by (auto simp: StringData_new_def dest: Reserve_ref_count)

lemma Clone_ref_count: "Clone stale p r d = Inr nd \<Longrightarrow> ref_count_m nd = 1"
  by (auto simp: Clone_def split: sum.splits
      dest!: CopyData_ref_count StringData_new_ref_count)

lemma not_Unique_not_Unsharedable: "\<not> Unique d \<Longrightarrow> \<not> Unsharedable d"
  by (simp add: Unique_iff Unsharedable_iff)

lemma well_formed_ref_count [simp]:
  "well_formed (d\<lparr>ref_count_m := c\<rparr>) = well_formed d"
  by (simp add: well_formed_def cells_def)

lemma contents_ref_count [simp]: "contents (d\<lparr>ref_count_m := c\<rparr>) = contents d"
  by (simp add: contents_def cells_def)

lemma data_ref_count [simp]: "data (d\<lparr>ref_count_m := c\<rparr>) = data d"
  by (simp add: data_def)

text \<open>\<open>Reserve\<close> on a well-formed block, within the range of \<open>size_t\<close>: it returns.\<close>

lemma Reserve_returns:
  assumes wf: "well_formed d"
    and c3: "unat (capacity_m d) * 3 < 2 ^ 64" and r4: "unat r \<le> 2 ^ 64 - 4"
  shows "\<exists>d'. Reserve p r d = Inr d'
           \<and> well_formed d' \<and> size_m d' = size_m d \<and> contents d' = contents d
           \<and> ref_count_m d' = ref_count_m d
           \<and> unat r \<le> unat (capacity_m d')
           \<and> unat (capacity_m d) \<le> unat (capacity_m d')
           \<and> (4 dvd unat (capacity_m d) \<longrightarrow> 4 dvd unat (capacity_m d'))
           \<and> data d' = (if r \<le> capacity_m d then data d else Some p)"
proof (cases "r \<le> capacity_m d")
  case True
  then show ?thesis
    using wf by (simp add: Reserve_enough word_le_nat_alt)
next
  case False
  then have less: "capacity_m d < r"
    by simp
  let ?m = "max (unat (capacity_m d) * 3 div 2) (unat r)"
  let ?n = "RoundToMultiple (max (capacity_m d * 3 div 2) r) kBaseSize"
  let ?d' = "d\<lparr>buffer_m := Some (p, contents d @ replicate (unat ?n - unat (size_m d)) None),
               capacity_m := ?n\<rparr>"
  have run: "Reserve p r d = Inr ?d'"
    using wf less c3 r4 by (rule Reserve_grows(1))
  have n: "unat ?n = 4 * ((?m + 3) div 4)"
    using wf less c3 r4 by (rule Reserve_grows(2))
  have ge: "?m \<le> unat ?n"
    unfolding n by (rule round_up_ge)
  have "unat (capacity_m d) < unat r"
    using less by (simp add: word_less_nat_alt)
  then have grown: "unat (capacity_m d) \<le> unat ?n"
    using ge by simp
  then have fits: "unat (size_m d) \<le> unat ?n"
    using well_formed_size [OF wf] by simp
  have "length (contents d) = unat (size_m d)"
    using wf by (simp add: contents_def well_formed_cells well_formed_size)
  then have wf': "well_formed ?d'"
    using fits by (simp add: well_formed_def cells_def word_le_nat_alt)
  have "contents ?d' = take (unat (size_m ?d')) (cells ?d')"
    by (rule contents_def)
  also have "\<dots> = take (unat (size_m d))
                      (contents d @ replicate (unat ?n - unat (size_m d)) None)"
    by (simp add: cells_def)
  also have "\<dots> = contents d"
    by (rule contents_prefix [OF wf])
  finally have same: "contents ?d' = contents d" .
  have "4 dvd unat ?n"
    unfolding n by simp
  then show ?thesis
    using run ge grown wf' same False
    by (intro exI [of _ ?d']) (simp add: data_def)
qed

section \<open>The gate before a mutation\<close>

lemma PrepareToModify_in_place:
  assumes "h (data_m s) = Some d" and "Unique d"
    and "Reserve (array_ptr al) r d = Inr d'"
  shows "PrepareToModify al r mk s h
           = Inr (s, h(data_m s \<mapsto> d'\<lparr>ref_count_m := (if mk then - 1 else 1)\<rparr>))"
proof -
  have "Unique d'"
    using assms(2) Reserve_ref_count [OF assms(3)] by (simp add: Unique_iff)
  then show ?thesis
    using assms
    by (simp add: PrepareToModify_def MakeUnsharedable_def ResetSharedable_def mark_as_count)
qed

lemma PrepareToModify_detach:
  assumes "h (data_m s) = Some d" and "\<not> Unique d" and "0 < ref_count_m d"
    and "Clone (stale_capacity al) (array_ptr al) r d = Inr nd"
  shows "PrepareToModify al r mk s h
           = Inr (s\<lparr>data_m := block_ptr al\<rparr>,
                  h(data_m s \<mapsto> d\<lparr>ref_count_m := ref_count_m d - 1\<rparr>,
                    block_ptr al \<mapsto> nd\<lparr>ref_count_m := (if mk then - 1 else 1)\<rparr>))"
proof -
  have "Unique nd"
    using Clone_ref_count [OF assms(4)] by (rule Unique_one)
  moreover have "Release d = Inr (ref_count_m d = 1, d\<lparr>ref_count_m := ref_count_m d - 1\<rparr>)"
    using assms(3) not_Unique_not_Unsharedable [OF assms(2)] by (rule Release_shared)
  ultimately show ?thesis
    using assms
    by (simp add: PrepareToModify_def MakeUnsharedable_def ResetSharedable_def mark_as_count)
qed


lemma PrepareToModify_detach_result:
  assumes "h (data_m s) = Some d" and "\<not> Unique d" and "0 < ref_count_m d"
    and "PrepareToModify al r mk s h = Inr (s', h')"
  shows "\<exists>nd. Clone (stale_capacity al) (array_ptr al) r d = Inr nd
           \<and> s' = s\<lparr>data_m := block_ptr al\<rparr>
           \<and> h' = h(data_m s \<mapsto> d\<lparr>ref_count_m := ref_count_m d - 1\<rparr>,
                     block_ptr al \<mapsto> nd\<lparr>ref_count_m := (if mk then - 1 else 1)\<rparr>)"
proof (cases "Clone (stale_capacity al) (array_ptr al) r d")
  case (Inl e)
  then show ?thesis
    using assms by (simp add: PrepareToModify_def)
next
  case (Inr nd)
  then show ?thesis
    using PrepareToModify_detach [of h s d al r nd mk] assms by simp
qed

text \<open>
  C10. \<open>PrepareToModify\<close> takes its first branch when the block the handle holds is not
  \<open>Unique()\<close>. A held block (its count is not 0, as \<open>Release\<close> asserts) that is not
  \<open>Unique()\<close> has a count of at least 2 and is not unsharedable; the non-synchronized
  \<open>Release\<close> on it returns false and leaves a count of at least 1; and whenever
  \<open>PrepareToModify\<close> returns (the new block being placed at an address not in use), the
  old block is still in the store, with its count one lower and nothing else changed.
\<close>

theorem detach_keeps_old_block:
  assumes "h (data_m s) = Some d" and "\<not> Unique d" and "0 < ref_count_m d"
  shows "2 \<le> unat (ref_count_m d) \<and> \<not> Unsharedable d
       \<and> Release d = Inr (False, d\<lparr>ref_count_m := ref_count_m d - 1\<rparr>)
       \<and> 1 \<le> unat (ref_count_m d - 1)
       \<and> (\<forall>al r mk s' h'.
             h (block_ptr al) = None \<longrightarrow> PrepareToModify al r mk s h = Inr (s', h')
               \<longrightarrow> h' (data_m s) = Some (d\<lparr>ref_count_m := ref_count_m d - 1\<rparr>))"
proof -
  have ne1: "ref_count_m d \<noteq> 1" and ns: "\<not> Unsharedable d"
    using assms(2) by (simp_all add: Unique_iff Unsharedable_iff)
  have ne0: "ref_count_m d \<noteq> 0"
    using assms(3) by simp
  have "unat (ref_count_m d) \<noteq> unat (0 :: 32 word)"
    and "unat (ref_count_m d) \<noteq> unat (1 :: 32 word)"
    using ne0 ne1 by (simp_all only: word_unat_eq_iff [symmetric] not_False_eq_True)
  then have two: "2 \<le> unat (ref_count_m d)"
    by simp
  have rel: "Release d = Inr (False, d\<lparr>ref_count_m := ref_count_m d - 1\<rparr>)"
    using Release_shared [OF assms(3) ns] ne1 by simp
  have "unat (ref_count_m d - 1) = unat (ref_count_m d) - 1"
    using ne0 by (rule unat_minus_one)
  then have left: "1 \<le> unat (ref_count_m d - 1)"
    using two by simp
  have "h' (data_m s) = Some (d\<lparr>ref_count_m := ref_count_m d - 1\<rparr>)"
    if "h (block_ptr al) = None" and "PrepareToModify al r mk s h = Inr (s', h')"
    for al r mk s' h'
  proof -
    have "block_ptr al \<noteq> data_m s"
      using that(1) assms(1) by auto
    then show ?thesis
      using PrepareToModify_detach_result [of h s d al r mk s' h'] assms that(2)
      by auto
  qed
  then show ?thesis
    using two ns rel left by blast
qed

theorem detach_keeps_old_block_witness:
  "[5 \<mapsto> \<lparr>buffer_m = Some (7, [Some 1, Some 2, None, None]), capacity_m = 4, size_m = 2,
           ref_count_m = 2\<rparr>] (data_m \<lparr>data_m = 5\<rparr>)
     = Some \<lparr>buffer_m = Some (7, [Some 1, Some 2, None, None]), capacity_m = 4, size_m = 2,
             ref_count_m = 2\<rparr>
   \<and> PrepareToModify \<lparr>block_ptr = 6, array_ptr = 9, stale_capacity = 0\<rparr> 3 False
        \<lparr>data_m = 5\<rparr>
        [5 \<mapsto> \<lparr>buffer_m = Some (7, [Some 1, Some 2, None, None]), capacity_m = 4, size_m = 2,
                ref_count_m = 2\<rparr>]
     = Inr (\<lparr>data_m = 6\<rparr>,
            [5 \<mapsto> \<lparr>buffer_m = Some (7, [Some 1, Some 2, None, None]), capacity_m = 4,
                    size_m = 2, ref_count_m = 1\<rparr>,
             6 \<mapsto> \<lparr>buffer_m = Some (9, [Some 1, Some 2, None, None]), capacity_m = 4,
                    size_m = 2, ref_count_m = 1\<rparr>])
   \<and> Release \<lparr>buffer_m = Some (7, [Some 1, Some 2, None, None]), capacity_m = 4, size_m = 2,
               ref_count_m = 2\<rparr>
     = Inr (False, \<lparr>buffer_m = Some (7, [Some 1, Some 2, None, None]), capacity_m = 4,
                    size_m = 2, ref_count_m = 1\<rparr>)"
proof -
  let ?d = "\<lparr>buffer_m = Some (7 :: addr, [Some (1 :: byte), Some 2, None, None]),
             capacity_m = 4 :: size_t, size_m = 2 :: size_t, ref_count_m = 2 :: 32 word\<rparr>"
  let ?h = "[5 \<mapsto> ?d]"
  have a: "?h (data_m \<lparr>data_m = 5\<rparr>) = Some ?d"
    by simp
  have b: "\<not> Unique ?d"
    by (simp add: Unique_iff)
  have c: "0 < ref_count_m ?d"
    by simp
  have run: "PrepareToModify \<lparr>block_ptr = 6, array_ptr = 9, stale_capacity = 0\<rparr> 3 False
        \<lparr>data_m = 5\<rparr> ?h
     = Inr (\<lparr>data_m = 6\<rparr>,
            [5 \<mapsto> \<lparr>buffer_m = Some (7, [Some 1, Some 2, None, None]), capacity_m = 4,
                    size_m = 2, ref_count_m = 1\<rparr>,
             6 \<mapsto> \<lparr>buffer_m = Some (9, [Some 1, Some 2, None, None]), capacity_m = 4,
                    size_m = 2, ref_count_m = 1\<rparr>])"
    by (simp add: PrepareToModify_def Unique_iff Unsharedable_iff Clone_def StringData_new_def
        Reserve_def RoundToMultiple_def kBaseSize_def memcpy_s_def CopyData_def Release_def
        ResetSharedable_def Let_def replicate_numeral_eq)
  show ?thesis
    using a b c run detach_keeps_old_block [of ?h "\<lparr>data_m = 5\<rparr>" ?d] by simp
qed

section \<open>Appending\<close>

text \<open>
  Writing \<open>len\<close> bytes of \<open>str\<close> at the end of a well-formed block with room for them:
  what \<open>Append\<close> and the constructor from bytes do after their block is ready.
\<close>

lemma CopyData_at_end:
  assumes wf: "well_formed d" and u: "Unique d"
    and fits: "unat (size_m d) + unat len \<le> unat (capacity_m d)"
    and src: "unat len \<le> length str"
  shows "\<exists>d'. CopyData (Some (map Some str)) len (size_m d) d = Inr d'
           \<and> well_formed d' \<and> ref_count_m d' = ref_count_m d
           \<and> capacity_m d' = capacity_m d \<and> data d' = data d
           \<and> unat (size_m d') = unat (size_m d) + unat len
           \<and> contents d' = contents d @ map Some (take (unat len) str)"
proof -
  have src': "unat len \<le> length (readable (Some (map Some str)))"
    using src by (simp add: readable_def)
  obtain d' where run: "CopyData (Some (map Some str)) len (size_m d) d = Inr d'"
    and cells: "cells d' = take (unat (size_m d)) (cells d)
                             @ take (unat len) (readable (Some (map Some str)))
                             @ drop (unat (size_m d) + unat len) (cells d)"
    and rest: "data d' = data d" "capacity_m d' = capacity_m d"
      "ref_count_m d' = ref_count_m d"
      "unat (size_m d') = max (unat (size_m d) + unat len) (unat (size_m d))"
      "well_formed d'"
    using CopyData_writes [OF wf u order_refl fits src'] by blast
  have size: "unat (size_m d') = unat (size_m d) + unat len"
    using rest(4) by simp
  have l1: "length (take (unat (size_m d)) (cells d)) = unat (size_m d)"
    using wf by (simp add: well_formed_cells well_formed_size)
  have l2: "length (take (unat len) (map Some str)) = unat len"
    using src by simp
  have "contents d' = take (unat (size_m d) + unat len) (cells d')"
    by (simp add: contents_def size)
  also have "\<dots> = take (unat (size_m d)) (cells d) @ take (unat len) (map Some str)"
    unfolding cells using l1 l2 by (simp add: readable_def)
  also have "\<dots> = contents d @ map Some (take (unat len) str)"
    by (simp add: contents_def take_map)
  finally show ?thesis
    using run rest size by simp
qed

lemma unat_new_size:
  fixes size len :: size_t
  assumes "unat size + unat len \<le> 2 ^ 64 - 4"
  shows "unat (size + len) = unat size + unat len"
proof -
  have "unat size + unat len < 2 ^ LENGTH(64)"
    using assms by simp
  then show ?thesis
    by (rule unat_add_lem [THEN iffD1])
qed

lemma Append_in_place:
  assumes h: "h (data_m s) = Some d" and u: "Unique d" and wf: "well_formed d"
    and c3: "unat (capacity_m d) * 3 < 2 ^ 64"
    and fits: "unat (size_m d) + unat len \<le> 2 ^ 64 - 4"
    and src: "unat len \<le> length str"
  shows "\<exists>d'. Append al str len s h = Inr (s, h(data_m s \<mapsto> d'))
           \<and> well_formed d' \<and> ref_count_m d' = 1
           \<and> unat (size_m d') = unat (size_m d) + unat len
           \<and> contents d' = contents d @ map Some (take (unat len) str)
           \<and> unat (capacity_m d) \<le> unat (capacity_m d')
           \<and> (4 dvd unat (capacity_m d) \<longrightarrow> 4 dvd unat (capacity_m d'))
           \<and> data d' = (if size_m d + len \<le> capacity_m d then data d
                        else Some (array_ptr al))"
proof -
  let ?r = "size_m d + len"
  have r: "unat ?r = unat (size_m d) + unat len"
    using fits by (rule unat_new_size)
  then have r4: "unat ?r \<le> 2 ^ 64 - 4"
    using fits by simp
  obtain d1 where res: "Reserve (array_ptr al) ?r d = Inr d1"
    and d1: "well_formed d1" "size_m d1 = size_m d" "contents d1 = contents d"
      "unat ?r \<le> unat (capacity_m d1)" "unat (capacity_m d) \<le> unat (capacity_m d1)"
      "4 dvd unat (capacity_m d) \<longrightarrow> 4 dvd unat (capacity_m d1)"
      "data d1 = (if ?r \<le> capacity_m d then data d else Some (array_ptr al))"
    using Reserve_returns [OF wf c3 r4, of "array_ptr al"] by blast
  let ?d2 = "d1\<lparr>ref_count_m := 1\<rparr>"
  have ptm: "PrepareToModify al ?r False s h = Inr (s, h(data_m s \<mapsto> ?d2))"
    using PrepareToModify_in_place [of h s d al ?r d1 False] h u res by simp
  have wf2: "well_formed ?d2"
    using d1(1) by simp
  have u2: "Unique ?d2"
    by (simp add: Unique_def)
  have fits2: "unat (size_m ?d2) + unat len \<le> unat (capacity_m ?d2)"
    using d1(2,4) r by simp
  obtain d3 where run: "CopyData (Some (map Some str)) len (size_m ?d2) ?d2 = Inr d3"
    and d3: "well_formed d3" "ref_count_m d3 = ref_count_m ?d2"
      "capacity_m d3 = capacity_m ?d2" "data d3 = data ?d2"
      "unat (size_m d3) = unat (size_m ?d2) + unat len"
      "contents d3 = contents ?d2 @ map Some (take (unat len) str)"
    using CopyData_at_end [OF wf2 u2 fits2 src] by blast
  have "Append al str len s h = Inr (s, h(data_m s \<mapsto> d3))"
    using h ptm run by (simp add: Append_def Let_def)
  then show ?thesis
    using d3 d1 by (intro exI [of _ d3]) simp
qed

lemma Append_detach:
  assumes h: "h (data_m s) = Some d" and nu: "\<not> Unique d" and pos: "0 < ref_count_m d"
    and wf: "well_formed d" and stale: "stale_capacity al = 0"
    and cap: "unat (capacity_m d) \<le> 2 ^ 64 - 4"
    and fits: "unat (size_m d) + unat len \<le> 2 ^ 64 - 4"
    and src: "unat len \<le> length str"
  shows "\<exists>nd. Append al str len s h
               = Inr (s\<lparr>data_m := block_ptr al\<rparr>,
                      h(data_m s \<mapsto> d\<lparr>ref_count_m := ref_count_m d - 1\<rparr>,
                        block_ptr al \<mapsto> nd))
           \<and> well_formed nd \<and> ref_count_m nd = 1
           \<and> unat (size_m nd) = unat (size_m d) + unat len
           \<and> contents nd = contents d @ map Some (take (unat len) str)
           \<and> 4 dvd unat (capacity_m nd)
           \<and> data nd = (if max (size_m d + len) (capacity_m d) = 0 then None
                        else Some (array_ptr al))"
proof -
  let ?r = "size_m d + len"
  have r: "unat ?r = unat (size_m d) + unat len"
    using fits by (rule unat_new_size)
  have m: "unat (max ?r (capacity_m d)) \<le> 2 ^ 64 - 4"
    using fits cap by (simp add: unat_max r)
  obtain c where cl: "Clone 0 (array_ptr al) ?r d = Inr c"
    and c: "well_formed c" "size_m c = size_m d" "contents c = contents d"
      "unat (capacity_m c) = 4 * ((unat (max ?r (capacity_m d)) + 3) div 4)"
      "data c = (if max ?r (capacity_m d) = 0 then None else Some (array_ptr al))"
    using Clone_zeroed [OF wf m, of "array_ptr al"] by blast
  let ?c2 = "c\<lparr>ref_count_m := 1\<rparr>"
  let ?h' = "h(data_m s \<mapsto> d\<lparr>ref_count_m := ref_count_m d - 1\<rparr>, block_ptr al \<mapsto> ?c2)"
  have ptm: "PrepareToModify al ?r False s h = Inr (s\<lparr>data_m := block_ptr al\<rparr>, ?h')"
    using PrepareToModify_detach [of h s d al ?r c False] h nu pos cl stale by simp
  have wf2: "well_formed ?c2"
    using c(1) by simp
  have u2: "Unique ?c2"
    by (simp add: Unique_def)
  have "unat (max ?r (capacity_m d)) \<le> unat (capacity_m c)"
    unfolding c(4) by (rule round_up_ge)
  then have fits2: "unat (size_m ?c2) + unat len \<le> unat (capacity_m ?c2)"
    using c(2) r by (simp add: unat_max)
  obtain nd where run: "CopyData (Some (map Some str)) len (size_m ?c2) ?c2 = Inr nd"
    and nd: "well_formed nd" "ref_count_m nd = ref_count_m ?c2"
      "capacity_m nd = capacity_m ?c2" "data nd = data ?c2"
      "unat (size_m nd) = unat (size_m ?c2) + unat len"
      "contents nd = contents ?c2 @ map Some (take (unat len) str)"
    using CopyData_at_end [OF wf2 u2 fits2 src] by blast
  have "Append al str len s h
          = Inr (s\<lparr>data_m := block_ptr al\<rparr>,
                 h(data_m s \<mapsto> d\<lparr>ref_count_m := ref_count_m d - 1\<rparr>, block_ptr al \<mapsto> nd))"
    using h ptm run by (simp add: Append_def Let_def)
  moreover have "4 dvd unat (capacity_m nd)"
    using nd(3) c(4) by simp
  ultimately show ?thesis
    using nd c by (intro exI [of _ nd]) simp
qed

text \<open>The constructor from bytes, in zeroed storage.\<close>

lemma RCString_from_bytes_zeroed:
  assumes stale: "stale_capacity al = 0"
    and len: "unat len \<le> 2 ^ 64 - 4" and src: "unat len \<le> length str"
  shows "\<exists>d. RCString_from_bytes al str len h
              = Inr (\<lparr>data_m = block_ptr al\<rparr>, h(block_ptr al \<mapsto> d))
           \<and> well_formed d \<and> ref_count_m d = 1 \<and> size_m d = len
           \<and> contents d = map Some (take (unat len) str)
           \<and> 4 dvd unat (capacity_m d)
           \<and> data d = (if len = 0 then None else Some (array_ptr al))"
proof -
  obtain b where new: "StringData_new 0 (array_ptr al) len = Inr b"
    and b: "well_formed b" "size_m b = 0" "ref_count_m b = 1"
      "unat (capacity_m b) = 4 * ((unat len + 3) div 4)"
      "data b = (if len = 0 then None else Some (array_ptr al))"
      "cells b = replicate (unat (capacity_m b)) None"
    using StringData_new_zeroed [OF len, of "array_ptr al"] by blast
  have "unat len \<le> unat (capacity_m b)"
    unfolding b(4) by (rule round_up_ge)
  then have fits: "unat (size_m b) + unat len \<le> unat (capacity_m b)"
    using b(2) by simp
  obtain d where run: "CopyData (Some (map Some str)) len (size_m b) b = Inr d"
    and d: "well_formed d" "ref_count_m d = ref_count_m b"
      "capacity_m d = capacity_m b" "data d = data b"
      "unat (size_m d) = unat (size_m b) + unat len"
      "contents d = contents b @ map Some (take (unat len) str)"
    using CopyData_at_end [OF b(1) Unique_one [OF b(3)] fits src] by blast
  have "size_m d = len"
    using d(5) b(2) by (simp add: word_unat_eq_iff)
  moreover have "contents b = []"
    using b(2) by (simp add: contents_def)
  moreover have "4 dvd unat (capacity_m d)"
    using d(3) b(4) by simp
  moreover have "RCString_from_bytes al str len h
              = Inr (\<lparr>data_m = block_ptr al\<rparr>, h(block_ptr al \<mapsto> d))"
    using new run b(2) stale by (simp add: RCString_from_bytes_def)
  ultimately show ?thesis
    using d b by (intro exI [of _ d]) simp
qed

section \<open>Copy construction\<close>

lemma RCString_copy_shares:
  assumes "h (data_m other) = Some d" and "\<not> Unsharedable d" and "0 < ref_count_m d"
  shows "RCString_copy al other h
           = Inr (\<lparr>data_m = data_m other\<rparr>,
                  h(data_m other \<mapsto> d\<lparr>ref_count_m := ref_count_m d + 1\<rparr>))"
  using assms by (simp add: RCString_copy_def AddRef_def)

lemma RCString_copy_clones:
  assumes h: "h (data_m other) = Some d" and ex: "Unsharedable d"
    and wf: "well_formed d" and stale: "stale_capacity al = 0"
    and cap: "unat (capacity_m d) \<le> 2 ^ 64 - 4"
  shows "\<exists>nd. RCString_copy al other h
                = Inr (\<lparr>data_m = block_ptr al\<rparr>, h(block_ptr al \<mapsto> nd))
           \<and> well_formed nd \<and> ref_count_m nd = 1
           \<and> size_m nd = size_m d \<and> contents nd = contents d
           \<and> data nd = (if capacity_m d = 0 then None else Some (array_ptr al))"
proof -
  have le: "size_m d \<le> capacity_m d"
    using wf by (simp add: well_formed_def)
  then have m: "max (size_m d) (capacity_m d) = capacity_m d"
    by (simp add: max_def)
  then have "unat (max (size_m d) (capacity_m d)) \<le> 2 ^ 64 - 4"
    using cap by simp
  then obtain nd where cl: "Clone 0 (array_ptr al) (size_m d) d = Inr nd"
    and nd: "well_formed nd" "size_m nd = size_m d" "contents nd = contents d"
      "ref_count_m nd = 1"
      "data nd = (if max (size_m d) (capacity_m d) = 0 then None else Some (array_ptr al))"
    using Clone_zeroed [OF wf, of "size_m d" "array_ptr al"] by blast
  have "RCString_copy al other h = Inr (\<lparr>data_m = block_ptr al\<rparr>, h(block_ptr al \<mapsto> nd))"
    using h ex cl stale by (simp add: RCString_copy_def)
  then show ?thesis
    using nd m by (intro exI [of _ nd]) simp
qed

text \<open>
  C5, amended. Copy-constructing B from A, whose block is \<open>d\<close>. If \<open>d\<close> is not
  unsharedable, is held (its count is not 0) and its count is below \<open>2^32 - 2\<close>, B holds
  the same block as A (so their \<open>data()\<close> are the same pointer), the count is one
  higher, and the block is not \<open>Unique()\<close>. If \<open>d\<close> is unsharedable and well formed, and the new
  block is built in storage that reads zero at an address not in use, B holds a new
  block with count 1 and the bytes and size of \<open>d\<close>, in an array of its own, while A's
  block is unchanged.
\<close>

theorem RCString_copy_shares_or_clones:
  assumes "h (data_m A) = Some d"
  shows "(\<not> Unsharedable d \<and> 0 < ref_count_m d \<and> unat (ref_count_m d) < 2 ^ 32 - 2 \<longrightarrow>
            RCString_copy al A h
              = Inr (\<lparr>data_m = data_m A\<rparr>,
                     h(data_m A \<mapsto> d\<lparr>ref_count_m := ref_count_m d + 1\<rparr>))
            \<and> unat (ref_count_m d + 1) = unat (ref_count_m d) + 1
            \<and> \<not> Unique (d\<lparr>ref_count_m := ref_count_m d + 1\<rparr>)
            \<and> data (d\<lparr>ref_count_m := ref_count_m d + 1\<rparr>) = data d)
       \<and> (Unsharedable d \<and> well_formed d \<and> stale_capacity al = 0
            \<and> unat (capacity_m d) \<le> 2 ^ 64 - 4 \<and> h (block_ptr al) = None \<longrightarrow>
            (\<exists>nd. RCString_copy al A h
                     = Inr (\<lparr>data_m = block_ptr al\<rparr>, h(block_ptr al \<mapsto> nd))
               \<and> block_ptr al \<noteq> data_m A
               \<and> (h(block_ptr al \<mapsto> nd)) (data_m A) = Some d
               \<and> ref_count_m nd = 1 \<and> size_m nd = size_m d \<and> contents nd = contents d
               \<and> well_formed nd
               \<and> data nd = (if capacity_m d = 0 then None else Some (array_ptr al))))"
proof (intro conjI impI)
  assume a: "\<not> Unsharedable d \<and> 0 < ref_count_m d \<and> unat (ref_count_m d) < 2 ^ 32 - 2"
  show "RCString_copy al A h
              = Inr (\<lparr>data_m = data_m A\<rparr>,
                     h(data_m A \<mapsto> d\<lparr>ref_count_m := ref_count_m d + 1\<rparr>))"
    using assms a by (intro RCString_copy_shares) simp_all
  have "unat (ref_count_m d) + unat (1 :: 32 word) < 2 ^ LENGTH(32)"
    using a by simp
  then have "unat (ref_count_m d + 1) = unat (ref_count_m d) + unat (1 :: 32 word)"
    by (rule unat_add_lem [THEN iffD1])
  then show n: "unat (ref_count_m d + 1) = unat (ref_count_m d) + 1"
    by simp
  have "0 < unat (ref_count_m d)"
    using a by (simp add: word_less_nat_alt)
  then have "unat (ref_count_m d + 1) \<noteq> unat (1 :: 32 word)"
    and "unat (ref_count_m d + 1) \<noteq> unat (- 1 :: 32 word)"
    using a n by (simp_all add: unsigned_minus_1_eq_mask mask_eq_exp_minus_1)
  then have "ref_count_m d + 1 \<noteq> 1" and "ref_count_m d + 1 \<noteq> - 1"
    by (metis, metis)
  then show "\<not> Unique (d\<lparr>ref_count_m := ref_count_m d + 1\<rparr>)"
    by (simp add: Unique_iff)
  show "data (d\<lparr>ref_count_m := ref_count_m d + 1\<rparr>) = data d"
    by simp
next
  assume a: "Unsharedable d \<and> well_formed d \<and> stale_capacity al = 0
            \<and> unat (capacity_m d) \<le> 2 ^ 64 - 4 \<and> h (block_ptr al) = None"
  then obtain nd where run: "RCString_copy al A h
                = Inr (\<lparr>data_m = block_ptr al\<rparr>, h(block_ptr al \<mapsto> nd))"
    and nd: "well_formed nd" "ref_count_m nd = 1" "size_m nd = size_m d"
      "contents nd = contents d"
      "data nd = (if capacity_m d = 0 then None else Some (array_ptr al))"
    using RCString_copy_clones [of h A d al] assms by blast
  have "block_ptr al \<noteq> data_m A"
    using a assms by auto
  then show "\<exists>nd. RCString_copy al A h
                     = Inr (\<lparr>data_m = block_ptr al\<rparr>, h(block_ptr al \<mapsto> nd))
               \<and> block_ptr al \<noteq> data_m A
               \<and> (h(block_ptr al \<mapsto> nd)) (data_m A) = Some d
               \<and> ref_count_m nd = 1 \<and> size_m nd = size_m d \<and> contents nd = contents d
               \<and> well_formed nd
               \<and> data nd = (if capacity_m d = 0 then None else Some (array_ptr al))"
    using run nd assms by (intro exI [of _ nd]) simp
qed

theorem RCString_copy_shares_or_clones_witness:
  "RCString_copy \<lparr>block_ptr = 6, array_ptr = 9, stale_capacity = 0\<rparr> \<lparr>data_m = 5\<rparr>
     [5 \<mapsto> \<lparr>buffer_m = Some (7, [Some 1, Some 2, None, None]), capacity_m = 4, size_m = 2,
             ref_count_m = 1\<rparr>]
   = Inr (\<lparr>data_m = 5\<rparr>,
          [5 \<mapsto> \<lparr>buffer_m = Some (7, [Some 1, Some 2, None, None]), capacity_m = 4,
                  size_m = 2, ref_count_m = 2\<rparr>])
   \<and> \<not> Unique \<lparr>buffer_m = Some (7, [Some 1, Some 2, None, None]), capacity_m = 4,
                 size_m = 2, ref_count_m = 2\<rparr>
   \<and> RCString_copy \<lparr>block_ptr = 6, array_ptr = 9, stale_capacity = 0\<rparr> \<lparr>data_m = 5\<rparr>
       [5 \<mapsto> \<lparr>buffer_m = Some (7, [Some 1, Some 2, None, None]), capacity_m = 4, size_m = 2,
               ref_count_m = - 1\<rparr>]
     = Inr (\<lparr>data_m = 6\<rparr>,
            [5 \<mapsto> \<lparr>buffer_m = Some (7, [Some 1, Some 2, None, None]), capacity_m = 4,
                    size_m = 2, ref_count_m = - 1\<rparr>,
             6 \<mapsto> \<lparr>buffer_m = Some (9, [Some 1, Some 2, None, None]), capacity_m = 4,
                    size_m = 2, ref_count_m = 1\<rparr>])"
proof -
  let ?al = "\<lparr>block_ptr = 6, array_ptr = 9, stale_capacity = 0\<rparr>"
  let ?A = "\<lparr>data_m = 5\<rparr>"
  let ?d = "\<lparr>buffer_m = Some (7 :: addr, [Some (1 :: byte), Some 2, None, None]),
             capacity_m = 4 :: size_t, size_m = 2 :: size_t, ref_count_m = 1 :: 32 word\<rparr>"
  let ?e = "?d\<lparr>ref_count_m := - 1\<rparr>"
  have wf: "well_formed ?e"
    by (simp add: well_formed_def cells_def)
  have ex: "Unsharedable ?e" "\<not> Unsharedable ?d"
    by (simp_all add: Unsharedable_iff)
  have shared: "RCString_copy ?al ?A [5 \<mapsto> ?d]
      = Inr (?A, [5 \<mapsto> ?d\<lparr>ref_count_m := 2\<rparr>]) \<and> \<not> Unique (?d\<lparr>ref_count_m := 2\<rparr>)"
    using RCString_copy_shares_or_clones [of "[5 \<mapsto> ?d]" ?A ?d ?al] ex by simp
  have "\<exists>nd. RCString_copy ?al ?A [5 \<mapsto> ?e] = Inr (\<lparr>data_m = 6\<rparr>, [5 \<mapsto> ?e, 6 \<mapsto> nd])
          \<and> ref_count_m nd = 1"
    using RCString_copy_shares_or_clones [of "[5 \<mapsto> ?e]" ?A ?e ?al] ex wf by auto
  moreover have "RCString_copy ?al ?A [5 \<mapsto> ?e]
     = Inr (\<lparr>data_m = 6\<rparr>,
            [5 \<mapsto> ?e,
             6 \<mapsto> \<lparr>buffer_m = Some (9, [Some 1, Some 2, None, None]), capacity_m = 4,
                    size_m = 2, ref_count_m = 1\<rparr>])"
    by (simp add: RCString_copy_def Unique_iff Unsharedable_iff Clone_def StringData_new_def
        Reserve_def RoundToMultiple_def kBaseSize_def memcpy_s_def CopyData_def
        Let_def replicate_numeral_eq)
  ultimately show ?thesis
    using shared by simp
qed

text \<open>
  The claim as stated fails at the last count below the mark: a block with count
  \<open>2^32 - 2\<close> is not unsharedable, a copy shares it, and the incremented count is the
  mark itself, so the block then reports \<open>Unique()\<close> (and \<open>Unsharedable()\<close>).
\<close>

theorem RCString_copy_reaches_mark_counterexample:
  "RCString_copy \<lparr>block_ptr = 6, array_ptr = 9, stale_capacity = 0\<rparr> \<lparr>data_m = 5\<rparr>
     [5 \<mapsto> \<lparr>buffer_m = Some (7, [Some 1, Some 2, None, None]), capacity_m = 4, size_m = 2,
             ref_count_m = 0xFFFFFFFE\<rparr>]
   = Inr (\<lparr>data_m = 5\<rparr>,
          [5 \<mapsto> \<lparr>buffer_m = Some (7, [Some 1, Some 2, None, None]), capacity_m = 4,
                  size_m = 2, ref_count_m = 0xFFFFFFFF\<rparr>])
   \<and> \<not> Unsharedable \<lparr>buffer_m = Some (7, [Some 1, Some 2, None, None]), capacity_m = 4,
                       size_m = 2, ref_count_m = 0xFFFFFFFE\<rparr>
   \<and> Unique \<lparr>buffer_m = Some (7, [Some 1, Some 2, None, None]), capacity_m = 4,
               size_m = 2, ref_count_m = 0xFFFFFFFF\<rparr>"
  by (simp add: RCString_copy_def AddRef_def Unique_iff Unsharedable_iff)

section \<open>Detach on write\<close>

text \<open>
  C6, amended. A holds a well-formed block \<open>d\<close> alone (count 1) and B is copy-constructed
  from A. When B is then appended to, the new block being built in storage that reads
  zero, at an address not in use, with the sizes within the range of \<open>size_t\<close> and
  \<open>length\<close> bytes readable at \<open>str\<close>: A's block keeps its size, its bytes and its
  array; both blocks are \<open>Unique()\<close>; B's block holds A's bytes followed by the
  appended ones; and, unless A's block has capacity 0 and nothing is appended, B's
  block has an array of its own, so the two \<open>data()\<close> pointers differ.
\<close>

theorem Append_detaches_from_sharer:
  assumes "h (data_m A) = Some d" and "well_formed d" and "ref_count_m d = 1"
    and "stale_capacity al = 0" and "h (block_ptr al) = None"
    and "data d \<noteq> Some (array_ptr al)"
    and "unat (capacity_m d) \<le> 2 ^ 64 - 4"
    and "unat (size_m d) + unat len \<le> 2 ^ 64 - 4"
    and "unat len \<le> length str"
  shows "\<exists>B h1 B' h2 dA dB.
           RCString_copy al_copy A h = Inr (B, h1) \<and> data_m B = data_m A
         \<and> Append al str len B h1 = Inr (B', h2)
         \<and> h2 (data_m A) = Some dA \<and> h2 (data_m B') = Some dB
         \<and> data_m B' \<noteq> data_m A
         \<and> size_m dA = size_m d \<and> contents dA = contents d \<and> data dA = data d
         \<and> Unique dA \<and> Unique dB
         \<and> contents dB = contents d @ map Some (take (unat len) str)
         \<and> (0 < unat (capacity_m d) + unat len \<longrightarrow>
               data dB = Some (array_ptr al) \<and> data dA \<noteq> data dB)"
proof -
  let ?B = "\<lparr>data_m = data_m A\<rparr>"
  let ?d2 = "d\<lparr>ref_count_m := ref_count_m d + 1\<rparr>"
  let ?h1 = "h(data_m A \<mapsto> ?d2)"
  have ns: "\<not> Unsharedable d" and pos: "0 < ref_count_m d"
    using assms(3) by (simp_all add: Unsharedable_iff)
  have copy: "RCString_copy al_copy A h = Inr (?B, ?h1)"
    using assms(1) ns pos by (rule RCString_copy_shares)
  have two: "ref_count_m ?d2 = 2"
    using assms(3) by simp
  have nu: "\<not> Unique ?d2" and pos2: "0 < ref_count_m ?d2"
    using two by (simp_all add: Unique_iff)
  have at: "?h1 (data_m ?B) = Some ?d2"
    by simp
  have wf2: "well_formed ?d2"
    using assms(2) by simp
  obtain nd where run: "Append al str len ?B ?h1
               = Inr (?B\<lparr>data_m := block_ptr al\<rparr>,
                      ?h1(data_m ?B \<mapsto> ?d2\<lparr>ref_count_m := ref_count_m ?d2 - 1\<rparr>,
                          block_ptr al \<mapsto> nd))"
    and nd: "well_formed nd" "ref_count_m nd = 1"
      "contents nd = contents ?d2 @ map Some (take (unat len) str)"
      "data nd = (if max (size_m ?d2 + len) (capacity_m ?d2) = 0 then None
                  else Some (array_ptr al))"
    using Append_detach [of ?h1 ?B ?d2 al len str] at nu pos2 wf2 assms(4,7,8,9)
    by auto
  let ?dA = "?d2\<lparr>ref_count_m := ref_count_m ?d2 - 1\<rparr>"
  let ?h2 = "?h1(data_m ?B \<mapsto> ?dA, block_ptr al \<mapsto> nd)"
  have fresh: "block_ptr al \<noteq> data_m A"
    using assms(1,5) by auto
  have "d\<lparr>ref_count_m := 1\<rparr> = d"
    by (subst assms(3) [symmetric]) simp
  then have same: "?dA = d"
    using assms(3) by simp
  have differ: "data nd = Some (array_ptr al) \<and> data d \<noteq> data nd"
    if "0 < unat (capacity_m d) + unat len"
  proof -
    have "unat (size_m d + len) = unat (size_m d) + unat len"
      using assms(8) by (rule unat_new_size)
    then have "unat (max (size_m d + len) (capacity_m d))
                 = max (unat (size_m d) + unat len) (unat (capacity_m d))"
      by (simp only: unat_max)
    then have "0 < unat (max (size_m d + len) (capacity_m d))"
      using that by arith
    then have "max (size_m d + len) (capacity_m d) \<noteq> 0"
      by (simp add: unat_gt_0)
    then show ?thesis
      using nd(4) assms(6) by simp
  qed
  have app: "Append al str len ?B ?h1 = Inr (\<lparr>data_m = block_ptr al\<rparr>, ?h2)"
    using run by simp
  have "?h2 (data_m A) = Some d" and "?h2 (data_m \<lparr>data_m = block_ptr al\<rparr>) = Some nd"
    and "data_m \<lparr>data_m = block_ptr al\<rparr> \<noteq> data_m A"
    using fresh same by simp_all
  moreover have "Unique d" and "Unique nd"
    using assms(3) nd(2) by (simp_all add: Unique_one)
  moreover have "contents nd = contents d @ map Some (take (unat len) str)"
    using nd(3) by simp
  moreover have "0 < unat (capacity_m d) + unat len \<longrightarrow>
               data nd = Some (array_ptr al) \<and> data d \<noteq> data nd"
    using differ by blast
  ultimately show ?thesis
    using copy app by (intro exI [of _ ?B] exI [of _ ?h1]
        exI [of _ "\<lparr>data_m = block_ptr al\<rparr>"] exI [of _ ?h2] exI [of _ d] exI [of _ nd]) auto
qed


theorem Append_detaches_from_sharer_witness:
  "RCString_copy \<lparr>block_ptr = 0, array_ptr = 0, stale_capacity = 0\<rparr> \<lparr>data_m = 5\<rparr>
     [5 \<mapsto> \<lparr>buffer_m = Some (7, [Some 1, Some 2, None, None]), capacity_m = 4, size_m = 2,
             ref_count_m = 1\<rparr>]
   = Inr (\<lparr>data_m = 5\<rparr>,
          [5 \<mapsto> \<lparr>buffer_m = Some (7, [Some 1, Some 2, None, None]), capacity_m = 4,
                  size_m = 2, ref_count_m = 2\<rparr>])
   \<and> Append \<lparr>block_ptr = 6, array_ptr = 9, stale_capacity = 0\<rparr> [3, 4, 5] 3 \<lparr>data_m = 5\<rparr>
       [5 \<mapsto> \<lparr>buffer_m = Some (7, [Some 1, Some 2, None, None]), capacity_m = 4,
               size_m = 2, ref_count_m = 2\<rparr>]
     = Inr (\<lparr>data_m = 6\<rparr>,
            [5 \<mapsto> \<lparr>buffer_m = Some (7, [Some 1, Some 2, None, None]), capacity_m = 4,
                    size_m = 2, ref_count_m = 1\<rparr>,
             6 \<mapsto> \<lparr>buffer_m = Some (9, [Some 1, Some 2, Some 3, Some 4, Some 5,
                                          None, None, None]),
                    capacity_m = 8, size_m = 5, ref_count_m = 1\<rparr>])
   \<and> (\<exists>B h1 B' h2 dA dB.
         RCString_copy \<lparr>block_ptr = 0, array_ptr = 0, stale_capacity = 0\<rparr> \<lparr>data_m = 5\<rparr>
           [5 \<mapsto> \<lparr>buffer_m = Some (7, [Some 1, Some 2, None, None]), capacity_m = 4,
                   size_m = 2, ref_count_m = 1\<rparr>] = Inr (B, h1)
       \<and> Append \<lparr>block_ptr = 6, array_ptr = 9, stale_capacity = 0\<rparr> [3, 4, 5] 3 B h1
           = Inr (B', h2)
       \<and> h2 5 = Some dA \<and> h2 (data_m B') = Some dB
       \<and> Unique dA \<and> Unique dB \<and> data dA = Some 7 \<and> data dB = Some 9)"
proof -
  let ?ac = "\<lparr>block_ptr = 0, array_ptr = 0, stale_capacity = 0\<rparr>"
  let ?al = "\<lparr>block_ptr = 6, array_ptr = 9, stale_capacity = 0\<rparr>"
  let ?A = "\<lparr>data_m = 5\<rparr>"
  let ?d = "\<lparr>buffer_m = Some (7 :: addr, [Some (1 :: byte), Some 2, None, None]),
             capacity_m = 4 :: size_t, size_m = 2 :: size_t, ref_count_m = 1 :: 32 word\<rparr>"
  let ?h = "[5 \<mapsto> ?d]"
  have h: "?h (data_m ?A) = Some ?d"
    by simp
  have wf: "well_formed ?d"
    by (simp add: well_formed_def cells_def)
  have one: "ref_count_m ?d = 1" and stale: "stale_capacity ?al = 0"
    and fresh: "?h (block_ptr ?al) = None" and other: "data ?d \<noteq> Some (array_ptr ?al)"
    and cap: "unat (capacity_m ?d) \<le> 2 ^ 64 - 4"
    and fits: "unat (size_m ?d) + unat (3 :: size_t) \<le> 2 ^ 64 - 4"
    and src: "unat (3 :: size_t) \<le> length [3, 4, 5 :: byte]"
    by (simp_all add: data_def)
  have copy: "RCString_copy ?ac ?A ?h = Inr (?A, [5 \<mapsto> ?d\<lparr>ref_count_m := 2\<rparr>])"
    by (simp add: RCString_copy_def Unsharedable_iff AddRef_def)
  have app: "Append ?al [3, 4, 5] 3 ?A [5 \<mapsto> ?d\<lparr>ref_count_m := 2\<rparr>]
     = Inr (\<lparr>data_m = 6\<rparr>,
            [5 \<mapsto> ?d,
             6 \<mapsto> \<lparr>buffer_m = Some (9, [Some 1, Some 2, Some 3, Some 4, Some 5,
                                          None, None, None]),
                    capacity_m = 8, size_m = 5, ref_count_m = 1\<rparr>])"
    by (simp add: Append_def PrepareToModify_def Unique_iff Unsharedable_iff Clone_def
        StringData_new_def Reserve_def RoundToMultiple_def kBaseSize_def memcpy_s_def
        CopyData_def Release_def ResetSharedable_def Let_def replicate_numeral_eq)
  have "\<exists>B h1 B' h2 dA dB.
         RCString_copy ?ac ?A ?h = Inr (B, h1)
       \<and> Append ?al [3, 4, 5] 3 B h1 = Inr (B', h2)
       \<and> h2 5 = Some dA \<and> h2 (data_m B') = Some dB
       \<and> Unique dA \<and> Unique dB \<and> data dA = Some 7 \<and> data dB = Some 9"
    using Append_detaches_from_sharer
      [where h = ?h and A = ?A and d = ?d and al = ?al and len = 3
         and str = "[3, 4, 5]" and al_copy = ?ac,
       OF h wf one stale fresh other cap fits src]
    by (auto simp add: data_def)
  then show ?thesis
    using copy app by simp
qed

text \<open>
  The claim as stated fails for an empty string: a handle built from zero bytes has a
  block with no array (a null \<open>data()\<close>); its copy, appended to with zero bytes,
  detaches into another block with no array, and the two \<open>data()\<close> pointers are equal.
\<close>

theorem Append_empty_same_data_counterexample:
  "RCString_from_bytes \<lparr>block_ptr = 5, array_ptr = 7, stale_capacity = 0\<rparr> [] 0 Map.empty
     = Inr (\<lparr>data_m = 5\<rparr>,
            [5 \<mapsto> \<lparr>buffer_m = None, capacity_m = 0, size_m = 0, ref_count_m = 1\<rparr>])
   \<and> RCString_copy \<lparr>block_ptr = 6, array_ptr = 9, stale_capacity = 0\<rparr> \<lparr>data_m = 5\<rparr>
       [5 \<mapsto> \<lparr>buffer_m = None, capacity_m = 0, size_m = 0, ref_count_m = 1\<rparr>]
     = Inr (\<lparr>data_m = 5\<rparr>,
            [5 \<mapsto> \<lparr>buffer_m = None, capacity_m = 0, size_m = 0, ref_count_m = 2\<rparr>])
   \<and> Append \<lparr>block_ptr = 6, array_ptr = 9, stale_capacity = 0\<rparr> [] 0 \<lparr>data_m = 5\<rparr>
       [5 \<mapsto> \<lparr>buffer_m = None, capacity_m = 0, size_m = 0, ref_count_m = 2\<rparr>]
     = Inr (\<lparr>data_m = 6\<rparr>,
            [5 \<mapsto> \<lparr>buffer_m = None, capacity_m = 0, size_m = 0, ref_count_m = 1\<rparr>,
             6 \<mapsto> \<lparr>buffer_m = None, capacity_m = 0, size_m = 0, ref_count_m = 1\<rparr>])
   \<and> data \<lparr>buffer_m = None, capacity_m = 0, size_m = 0, ref_count_m = 1\<rparr> = None"
  by (simp add: RCString_from_bytes_def RCString_copy_def AddRef_def Append_def
      PrepareToModify_def Unique_iff Unsharedable_iff Clone_def StringData_new_def Reserve_def
      memcpy_s_def CopyData_def Release_def ResetSharedable_def Let_def data_def)

section \<open>Exclusive blocks\<close>

text \<open>
  However \<open>PrepareToModify\<close> gets there, the block the handle holds when it returns has
  the count its last step stored: the mark if \<open>make_unsharedable\<close>, 1 otherwise.
\<close>

lemma PrepareToModify_final_count:
  assumes "PrepareToModify al r mk s h = Inr (s', h')"
  shows "\<exists>d. h' (data_m s') = Some d \<and> ref_count_m d = (if mk then - 1 else 1)"
  using assms
  by (auto simp: PrepareToModify_def MakeUnsharedable_def ResetSharedable_def mark_as_count
      split: option.splits sum.splits prod.splits if_splits)

lemma index_mut_final_count:
  assumes "index_mut al pos s h = Inr (r, s', h')"
  shows "\<exists>d. h' (data_m s') = Some d \<and> Unsharedable d"
  using assms
  by (auto simp: index_mut_def Unsharedable_iff
      split: option.splits sum.splits prod.splits
      dest!: PrepareToModify_final_count)

lemma Append_final_count:
  assumes "Append al str len s h = Inr (s', h')"
  shows "\<exists>d. h' (data_m s') = Some d \<and> ref_count_m d = 1"
  using assms
  by (auto simp: Append_def Let_def
      split: option.splits sum.splits prod.splits
      dest!: PrepareToModify_final_count CopyData_ref_count)


lemma index_mut_in_place:
  assumes "h (data_m s) = Some d" and "Unique d" and "size_m d \<le> capacity_m d"
  shows "index_mut al pos s h
           = Inr ((data d, pos), s, h(data_m s \<mapsto> d\<lparr>ref_count_m := - 1\<rparr>))"
proof -
  have "Reserve (array_ptr al) (size_m d) d = Inr d"
    using assms(3) by (rule Reserve_enough)
  then have "PrepareToModify al (size_m d) True s h
               = Inr (s, h(data_m s \<mapsto> d\<lparr>ref_count_m := - 1\<rparr>))"
    using PrepareToModify_in_place [of h s d al "size_m d" d True] assms(1,2) by simp
  then show ?thesis
    using assms(1) by (simp add: index_mut_def)
qed

text \<open>
  C2, amended. When a non-const indexed access on A has returned, A's block is
  unsharedable. Copy-constructing from A in that state (the block being well formed,
  the new block built in storage that reads zero, at an address not in use) gives the
  copy a block of its own with count 1 and the same bytes and leaves A's block as it
  was, still unsharedable; the copy's \<open>data()\<close> differs from A's unless A's capacity
  is 0. Whenever an \<open>Append\<close> on A returns, A's block has count 1 again and is not
  unsharedable, and a copy made then shares it.
\<close>

theorem index_mut_exclusive_until_Append:
  assumes "index_mut al_i pos A h = Inr (r, A1, h1)"
  shows "\<exists>d1. h1 (data_m A1) = Some d1 \<and> Unsharedable d1
         \<and> (well_formed d1 \<and> stale_capacity al = 0 \<and> unat (capacity_m d1) \<le> 2 ^ 64 - 4
             \<and> h1 (block_ptr al) = None \<and> data d1 \<noteq> Some (array_ptr al) \<longrightarrow>
             (\<exists>nd. RCString_copy al A1 h1
                      = Inr (\<lparr>data_m = block_ptr al\<rparr>, h1(block_ptr al \<mapsto> nd))
                \<and> block_ptr al \<noteq> data_m A1
                \<and> (h1(block_ptr al \<mapsto> nd)) (data_m A1) = Some d1
                \<and> ref_count_m nd = 1 \<and> size_m nd = size_m d1 \<and> contents nd = contents d1
                \<and> (capacity_m d1 \<noteq> 0 \<longrightarrow> data nd \<noteq> data d1)))
         \<and> (\<forall>al_a str len A2 h2.
               Append al_a str len A1 h1 = Inr (A2, h2) \<longrightarrow>
               (\<exists>d2. h2 (data_m A2) = Some d2 \<and> ref_count_m d2 = 1 \<and> \<not> Unsharedable d2
                  \<and> (\<forall>al_c. RCString_copy al_c A2 h2
                               = Inr (\<lparr>data_m = data_m A2\<rparr>,
                                      h2(data_m A2 \<mapsto> d2\<lparr>ref_count_m := 2\<rparr>)))))"
proof -
  obtain d1 where d1: "h1 (data_m A1) = Some d1" "Unsharedable d1"
    using index_mut_final_count [OF assms] by blast
  have copy: "\<exists>nd. RCString_copy al A1 h1
                      = Inr (\<lparr>data_m = block_ptr al\<rparr>, h1(block_ptr al \<mapsto> nd))
                \<and> block_ptr al \<noteq> data_m A1
                \<and> (h1(block_ptr al \<mapsto> nd)) (data_m A1) = Some d1
                \<and> ref_count_m nd = 1 \<and> size_m nd = size_m d1 \<and> contents nd = contents d1
                \<and> (capacity_m d1 \<noteq> 0 \<longrightarrow> data nd \<noteq> data d1)"
    if a: "well_formed d1 \<and> stale_capacity al = 0 \<and> unat (capacity_m d1) \<le> 2 ^ 64 - 4
             \<and> h1 (block_ptr al) = None \<and> data d1 \<noteq> Some (array_ptr al)"
  proof -
    obtain nd where run: "RCString_copy al A1 h1
                = Inr (\<lparr>data_m = block_ptr al\<rparr>, h1(block_ptr al \<mapsto> nd))"
      and nd: "ref_count_m nd = 1" "size_m nd = size_m d1" "contents nd = contents d1"
        "data nd = (if capacity_m d1 = 0 then None else Some (array_ptr al))"
      using RCString_copy_clones [of h1 A1 d1 al] d1 a by blast
    have "block_ptr al \<noteq> data_m A1"
      using a d1(1) by auto
    then show ?thesis
      using run nd d1(1) a by (intro exI [of _ nd]) auto
  qed
  have app: "\<exists>d2. h2 (data_m A2) = Some d2 \<and> ref_count_m d2 = 1 \<and> \<not> Unsharedable d2
                  \<and> (\<forall>al_c. RCString_copy al_c A2 h2
                               = Inr (\<lparr>data_m = data_m A2\<rparr>,
                                      h2(data_m A2 \<mapsto> d2\<lparr>ref_count_m := 2\<rparr>)))"
    if appended: "Append al_a str len A1 h1 = Inr (A2, h2)" for al_a str len A2 h2
  proof -
    obtain d2 where d2: "h2 (data_m A2) = Some d2" "ref_count_m d2 = 1"
      using Append_final_count [OF appended] by blast
    have ns: "\<not> Unsharedable d2" and pos: "0 < ref_count_m d2"
      using d2(2) by (simp_all add: Unsharedable_iff)
    have "RCString_copy al_c A2 h2
            = Inr (\<lparr>data_m = data_m A2\<rparr>, h2(data_m A2 \<mapsto> d2\<lparr>ref_count_m := 2\<rparr>))"
      for al_c
      using RCString_copy_shares [of h2 A2 d2 al_c] d2 ns pos by simp
    then show ?thesis
      using d2 ns by blast
  qed
  show ?thesis
    using d1 copy app by blast
qed


theorem index_mut_exclusive_until_Append_witness:
  "index_mut \<lparr>block_ptr = 11, array_ptr = 21, stale_capacity = 0\<rparr> 0 \<lparr>data_m = 10\<rparr>
     [10 \<mapsto> \<lparr>buffer_m = Some (20, [Some 97, Some 98, None, None]), capacity_m = 4,
              size_m = 2, ref_count_m = 1\<rparr>]
   = Inr ((Some 20, 0), \<lparr>data_m = 10\<rparr>,
          [10 \<mapsto> \<lparr>buffer_m = Some (20, [Some 97, Some 98, None, None]), capacity_m = 4,
                   size_m = 2, ref_count_m = - 1\<rparr>])
   \<and> (\<exists>nd. RCString_copy \<lparr>block_ptr = 11, array_ptr = 21, stale_capacity = 0\<rparr>
              \<lparr>data_m = 10\<rparr>
              [10 \<mapsto> \<lparr>buffer_m = Some (20, [Some 97, Some 98, None, None]),
                       capacity_m = 4, size_m = 2, ref_count_m = - 1\<rparr>]
            = Inr (\<lparr>data_m = 11\<rparr>,
                   [10 \<mapsto> \<lparr>buffer_m = Some (20, [Some 97, Some 98, None, None]),
                            capacity_m = 4, size_m = 2, ref_count_m = - 1\<rparr>,
                    11 \<mapsto> nd])
          \<and> ref_count_m nd = 1 \<and> contents nd = [Some 97, Some 98]
          \<and> data nd \<noteq> Some 20)
   \<and> Append \<lparr>block_ptr = 11, array_ptr = 21, stale_capacity = 0\<rparr> [99] 1
        \<lparr>data_m = 10\<rparr>
        [10 \<mapsto> \<lparr>buffer_m = Some (20, [Some 97, Some 98, None, None]), capacity_m = 4,
                 size_m = 2, ref_count_m = - 1\<rparr>]
      = Inr (\<lparr>data_m = 10\<rparr>,
             [10 \<mapsto> \<lparr>buffer_m = Some (20, [Some 97, Some 98, Some 99, None]),
                      capacity_m = 4, size_m = 3, ref_count_m = 1\<rparr>])"
proof -
  let ?al = "\<lparr>block_ptr = 11, array_ptr = 21, stale_capacity = 0\<rparr>"
  let ?A = "\<lparr>data_m = 10\<rparr>"
  let ?d = "\<lparr>buffer_m = Some (20 :: addr, [Some (97 :: byte), Some 98, None, None]),
             capacity_m = 4 :: size_t, size_m = 2 :: size_t, ref_count_m = 1 :: 32 word\<rparr>"
  let ?e = "?d\<lparr>ref_count_m := - 1\<rparr>"
  have access: "index_mut ?al 0 ?A [10 \<mapsto> ?d] = Inr ((Some 20, 0), ?A, [10 \<mapsto> ?e])"
    using index_mut_in_place [of "[10 \<mapsto> ?d]" ?A ?d ?al 0]
    by (simp add: Unique_def data_def)
  have wf: "well_formed ?e"
    by (simp add: well_formed_def cells_def)
  have c: "contents ?e = [Some 97, Some 98]" and p: "data ?e = Some 20"
    by (simp_all add: contents_def cells_def data_def)
  have "\<exists>nd. RCString_copy ?al ?A [10 \<mapsto> ?e] = Inr (\<lparr>data_m = 11\<rparr>, [10 \<mapsto> ?e, 11 \<mapsto> nd])
          \<and> ref_count_m nd = 1 \<and> contents nd = [Some 97, Some 98] \<and> data nd \<noteq> Some 20"
    using index_mut_exclusive_until_Append
      [where al_i = ?al and pos = 0 and A = ?A and h = "[10 \<mapsto> ?d]" and r = "(Some 20, 0)"
         and ?A1.0 = ?A and ?h1.0 = "[10 \<mapsto> ?e]" and al = ?al, OF access]
      wf c p
    by auto
  moreover have "Append ?al [99] 1 ?A [10 \<mapsto> ?e]
      = Inr (?A, [10 \<mapsto> \<lparr>buffer_m = Some (20, [Some 97, Some 98, Some 99, None]),
                      capacity_m = 4, size_m = 3, ref_count_m = 1\<rparr>])"
    by (simp add: Append_def PrepareToModify_def Unique_iff Reserve_def memcpy_s_def
        CopyData_def ResetSharedable_def Let_def)
  ultimately show ?thesis
    using access by simp
qed

text \<open>
  The claim as stated fails: \<open>Append\<close> does return an unsharedable block to a
  shareable state. A handle built from two bytes is indexed (its block becomes
  unsharedable: the count \<open>- 1\<close> is the mark \<open>0xFFFFFFFF\<close>), then appended to (the
  count is 1 again); a copy made afterwards shares the block, so its \<open>data()\<close> is A's.
\<close>

theorem Append_resets_exclusive_counterexample:
  "RCString_from_bytes \<lparr>block_ptr = 10, array_ptr = 20, stale_capacity = 0\<rparr> [97, 98] 2
     Map.empty
   = Inr (\<lparr>data_m = 10\<rparr>,
          [10 \<mapsto> \<lparr>buffer_m = Some (20, [Some 97, Some 98, None, None]), capacity_m = 4,
                   size_m = 2, ref_count_m = 1\<rparr>])
   \<and> index_mut \<lparr>block_ptr = 11, array_ptr = 21, stale_capacity = 0\<rparr> 0 \<lparr>data_m = 10\<rparr>
       [10 \<mapsto> \<lparr>buffer_m = Some (20, [Some 97, Some 98, None, None]), capacity_m = 4,
                size_m = 2, ref_count_m = 1\<rparr>]
     = Inr ((Some 20, 0), \<lparr>data_m = 10\<rparr>,
            [10 \<mapsto> \<lparr>buffer_m = Some (20, [Some 97, Some 98, None, None]), capacity_m = 4,
                     size_m = 2, ref_count_m = - 1\<rparr>])
   \<and> Append \<lparr>block_ptr = 12, array_ptr = 22, stale_capacity = 0\<rparr> [99] 1 \<lparr>data_m = 10\<rparr>
       [10 \<mapsto> \<lparr>buffer_m = Some (20, [Some 97, Some 98, None, None]), capacity_m = 4,
                size_m = 2, ref_count_m = - 1\<rparr>]
     = Inr (\<lparr>data_m = 10\<rparr>,
            [10 \<mapsto> \<lparr>buffer_m = Some (20, [Some 97, Some 98, Some 99, None]),
                     capacity_m = 4, size_m = 3, ref_count_m = 1\<rparr>])
   \<and> RCString_copy \<lparr>block_ptr = 13, array_ptr = 23, stale_capacity = 0\<rparr> \<lparr>data_m = 10\<rparr>
       [10 \<mapsto> \<lparr>buffer_m = Some (20, [Some 97, Some 98, Some 99, None]), capacity_m = 4,
                size_m = 3, ref_count_m = 1\<rparr>]
     = Inr (\<lparr>data_m = 10\<rparr>,
            [10 \<mapsto> \<lparr>buffer_m = Some (20, [Some 97, Some 98, Some 99, None]),
                     capacity_m = 4, size_m = 3, ref_count_m = 2\<rparr>])"
  by (simp add: RCString_from_bytes_def RCString_copy_def AddRef_def Append_def index_mut_def
      PrepareToModify_def Unique_iff Unsharedable_iff StringData_new_def Reserve_def
      RoundToMultiple_def kBaseSize_def memcpy_s_def CopyData_def ResetSharedable_def
      MakeUnsharedable_def mark_as_count Let_def data_def replicate_numeral_eq)

section \<open>The growth invariant\<close>

lemma RoundToMultiple_dvd: "4 dvd unat (RoundToMultiple x kBaseSize)"
proof (cases "x = 0")
  case True
  then show ?thesis
    by (simp add: RoundToMultiple_def kBaseSize_def)
next
  case False
  define y where "y = x - 1 - (x - 1) mod 4"
  have a: "unat (x - 1) = unat x - 1"
    using False by (simp add: unat_minus_one)
  have b: "unat ((x - 1) mod 4) = (unat x - 1) mod 4"
    by (simp add: unat_mod a)
  have le: "(x - 1) mod 4 \<le> x - 1"
    by (simp add: word_le_nat_alt a b)
  have "unat y = unat x - 1 - (unat x - 1) mod 4"
    unfolding y_def using le by (simp add: unat_sub a b)
  then have "unat y = 4 * ((unat x - 1) div 4)"
    by (simp add: minus_mod_eq_mult_div)
  then have "4 dvd unat y + unat (4 :: size_t)"
    by simp
  moreover have "(4 :: nat) dvd 2 ^ LENGTH(64)"
    by simp
  ultimately have "4 dvd (unat y + unat (4 :: size_t)) mod 2 ^ LENGTH(64)"
    by (simp only: dvd_mod)
  then have "4 dvd unat (y + 4)"
    by (simp only: unat_word_ariths(1))
  moreover have "RoundToMultiple x kBaseSize = y + 4"
    unfolding RoundToMultiple_def kBaseSize_def y_def by simp
  ultimately show ?thesis
    by simp
qed

lemma memcpy_s_length:
  assumes "memcpy_s dest off destsz src count = Inr b"
  shows "map_option fst b = map_option fst dest
       \<and> length (readable (map_option snd b)) = length (readable (map_option snd dest))"
  using assms
  by (auto simp: memcpy_s_def readable_def split: if_splits option.splits prod.splits)

lemma memcpy_s_fits:
  assumes "memcpy_s dest off destsz src count = Inr b"
  shows "count = 0 \<or> count \<le> destsz"
  using assms
  by (auto simp: memcpy_s_def split: if_splits option.splits prod.splits)

lemma Reserve_growth_invariant:
  assumes "growth_invariant d" and "Reserve p r d = Inr d'"
  shows "growth_invariant d'"
proof (cases "r \<le> capacity_m d")
  case True
  then show ?thesis
    using assms by (simp add: Reserve_def)
next
  case False
  let ?n = "RoundToMultiple (max (capacity_m d * 3 div 2) r) kBaseSize"
  obtain b where copy: "memcpy_s (Some (p, replicate (unat ?n) None)) 0 ?n
                          (map_option snd (buffer_m d)) (size_m d) = Inr b"
    and d': "d' = d\<lparr>buffer_m := b, capacity_m := ?n\<rparr>"
    using assms(2) False by (auto simp: Reserve_def Let_def split: sum.splits)
  have "length (readable (map_option snd b)) = unat ?n"
    using memcpy_s_length [OF copy] by (simp add: readable_def)
  then have len: "length (cells d') = unat (capacity_m d')"
    by (simp add: d' cells_readable [symmetric])
  have "size_m d \<le> ?n"
    using memcpy_s_fits [OF copy] by auto
  then show ?thesis
    using len RoundToMultiple_dvd [of "max (capacity_m d * 3 div 2) r"]
    by (simp add: growth_invariant_def well_formed_def d')
qed

lemma CopyData_growth_invariant:
  assumes "growth_invariant d" and "CopyData src len pos d = Inr d'"
  shows "growth_invariant d'"
proof -
  obtain b where copy: "memcpy_s (buffer_m d) (unat pos) (capacity_m d) src len = Inr b"
    and le: "pos + len \<le> capacity_m d"
    and d': "d' = d\<lparr>buffer_m := b, size_m := max (pos + len) (size_m d)\<rparr>"
    using assms(2) by (auto simp: CopyData_def split: if_splits sum.splits)
  have "length (cells d') = length (cells d)"
    using memcpy_s_length [OF copy] by (simp add: d' cells_readable [symmetric])
  then show ?thesis
    using assms(1) le by (simp add: growth_invariant_def well_formed_def d')
qed

lemma StringData_new_growth_invariant:
  assumes "StringData_new 0 p c = Inr d"
  shows "growth_invariant d"
proof -
  have "growth_invariant \<lparr>buffer_m = None, capacity_m = 0, size_m = 0, ref_count_m = 1\<rparr>"
    by (simp add: growth_invariant_def well_formed_def cells_def)
  then show ?thesis
    using assms unfolding StringData_new_def by (rule Reserve_growth_invariant)
qed

lemma Clone_growth_invariant:
  assumes "Clone 0 p r d = Inr nd"
  shows "growth_invariant nd"
  using assms
  by (auto simp: Clone_def split: sum.splits
      dest!: StringData_new_growth_invariant elim: CopyData_growth_invariant)

lemma growth_invariant_ref_count [simp]:
  "growth_invariant (d\<lparr>ref_count_m := c\<rparr>) = growth_invariant d"
  by (simp add: growth_invariant_def)

lemma MakeUnsharedable_growth_invariant:
  "growth_invariant d \<Longrightarrow> MakeUnsharedable d = Inr d' \<Longrightarrow> growth_invariant d'"
  by (auto simp: MakeUnsharedable_def split: if_splits)

lemma ResetSharedable_growth_invariant:
  "growth_invariant d \<Longrightarrow> ResetSharedable d = Inr d' \<Longrightarrow> growth_invariant d'"
  by (auto simp: ResetSharedable_def split: if_splits)


lemma PrepareToModify_growth_invariant:
  assumes "h (data_m s) = Some d" and "growth_invariant d" and "stale_capacity al = 0"
    and "PrepareToModify al r mk s h = Inr (s', h')"
  shows "\<exists>d'. h' (data_m s') = Some d' \<and> growth_invariant d'"
proof (cases "Unique d")
  case True
  then obtain d1 where "Reserve (array_ptr al) r d = Inr d1"
    using assms(1,4) by (auto simp: PrepareToModify_def split: sum.splits)
  then have "growth_invariant d1"
    and "PrepareToModify al r mk s h
           = Inr (s, h(data_m s \<mapsto> d1\<lparr>ref_count_m := (if mk then - 1 else 1)\<rparr>))"
    using assms(1,2) True Reserve_growth_invariant [of d "array_ptr al" r d1]
      PrepareToModify_in_place [of h s d al r d1 mk]
    by simp_all
  then show ?thesis
    using assms(4) by auto
next
  case False
  then obtain nd where cl: "Clone (stale_capacity al) (array_ptr al) r d = Inr nd"
    using assms(1,4) by (auto simp: PrepareToModify_def split: sum.splits)
  then have pos: "0 < ref_count_m d"
    using assms(1,4) False
    by (auto simp: PrepareToModify_def Release_def split: sum.splits if_splits)
  have "growth_invariant nd"
    using cl assms(3) Clone_growth_invariant [of "array_ptr al" r d nd] by simp
  moreover have "PrepareToModify al r mk s h
           = Inr (s\<lparr>data_m := block_ptr al\<rparr>,
                  h(data_m s \<mapsto> d\<lparr>ref_count_m := ref_count_m d - 1\<rparr>,
                    block_ptr al \<mapsto> nd\<lparr>ref_count_m := (if mk then - 1 else 1)\<rparr>))"
    using PrepareToModify_detach [of h s d al r nd mk] assms(1) False pos cl by simp
  ultimately show ?thesis
    using assms(4) by auto
qed

lemma Append_growth_invariant:
  assumes "h (data_m s) = Some d" and "growth_invariant d" and "stale_capacity al = 0"
    and "Append al str len s h = Inr (s', h')"
  shows "\<exists>d'. h' (data_m s') = Some d' \<and> growth_invariant d'"
proof -
  have "\<exists>s1 h1 d1 d2. PrepareToModify al (size_m d + len) False s h = Inr (s1, h1)
          \<and> h1 (data_m s1) = Some d1
          \<and> CopyData (Some (map Some str)) len (size_m d1) d1 = Inr d2
          \<and> s' = s1 \<and> h' = h1(data_m s1 \<mapsto> d2)"
    using assms(1,4)
    by (auto simp: Append_def Let_def split: option.splits sum.splits prod.splits)
  then obtain s1 h1 d1 d2
    where ptm: "PrepareToModify al (size_m d + len) False s h = Inr (s1, h1)"
    and at: "h1 (data_m s1) = Some d1"
    and copy: "CopyData (Some (map Some str)) len (size_m d1) d1 = Inr d2"
    and res: "s' = s1" "h' = h1(data_m s1 \<mapsto> d2)"
    by blast
  have "growth_invariant d1"
    using PrepareToModify_growth_invariant [of h s d al "size_m d + len" False s1 h1]
      assms(1-3) ptm at by auto
  then have "growth_invariant d2"
    using copy by (rule CopyData_growth_invariant)
  then show ?thesis
    using res by simp
qed

text \<open>
  Any run of \<open>Append\<close> calls that returns, each new block built in storage that reads
  zero, ends with the handle holding a block whose capacity is a multiple of 4 and is
  the size of its array, with the size within it.
\<close>

lemma Append_all_growth_invariant:
  assumes "h (data_m s) = Some d" and "growth_invariant d"
    and "\<forall>(al, str, len) \<in> set calls. stale_capacity al = 0"
    and "Append_all calls s h = Inr (s', h')"
  shows "\<exists>d'. h' (data_m s') = Some d' \<and> growth_invariant d'"
  using assms
proof (induction calls arbitrary: s h d)
  case Nil
  then show ?case by simp
next
  case (Cons call calls)
  obtain al str len where call: "call = (al, str, len)"
    by (cases call) auto
  obtain s1 h1 where step: "Append al str len s h = Inr (s1, h1)"
    and rest: "Append_all calls s1 h1 = Inr (s', h')"
    using Cons.prems(4) by (auto simp: call split: sum.splits)
  have "stale_capacity al = 0"
    using Cons.prems(3) by (simp add: call)
  then obtain d1 where "h1 (data_m s1) = Some d1" "growth_invariant d1"
    using Append_growth_invariant [of h s d al str len s1 h1] Cons.prems(1,2) step by blast
  then show ?case
    using Cons.IH [of h1 s1 d1] Cons.prems(3) rest by simp
qed

section \<open>Construction in stale storage\<close>

text \<open>
  C3. Constructing a handle from \<open>n\<close> bytes gives size \<open>n\<close> and those bytes in a new
  block. The code does so only when the storage of the new block happens to hold less
  than \<open>n\<close> where \<open>capacity_\<close> lies: the constructor of \<open>StringData\<close> never sets
  \<open>capacity_\<close> before \<open>Reserve\<close> compares with it. With a stale value of 5 or more (here
  the fill pattern of a debug heap), constructing from the five bytes of \<open>hello\<close>
  allocates no array and stops in \<open>memcpy_s\<close> on a null destination.
\<close>

theorem RCString_from_bytes_stale_capacity:
  "RCString_from_bytes
     \<lparr>block_ptr = 10, array_ptr = 20, stale_capacity = 0xCDCDCDCDCDCDCDCD\<rparr>
     [104, 101, 108, 108, 111] 5 Map.empty
   = Inl InvalidParameter
   \<and> StringData_new 0xCDCDCDCDCDCDCDCD 20 5
     = Inr \<lparr>buffer_m = None, capacity_m = 0xCDCDCDCDCDCDCDCD, size_m = 0, ref_count_m = 1\<rparr>"
  by (simp add: RCString_from_bytes_def StringData_new_def Reserve_def CopyData_def
      Unique_def memcpy_s_def)

text \<open>
  C8. After construction and after every \<open>Append\<close> the capacity is a multiple of 4 and
  at least the size. The code keeps this only when each new block's storage reads as 0
  where \<open>capacity_\<close> lies (the same missing initialisation as in C3). With the stale
  value 7, a handle constructed from zero bytes has capacity 7 and no array, and still
  has after an \<open>Append\<close> of zero bytes: 7 is not a multiple of 4.
\<close>

theorem Append_stale_capacity:
  "RCString_from_bytes \<lparr>block_ptr = 10, array_ptr = 20, stale_capacity = 7\<rparr> [] 0 Map.empty
   = Inr (\<lparr>data_m = 10\<rparr>,
          [10 \<mapsto> \<lparr>buffer_m = None, capacity_m = 7, size_m = 0, ref_count_m = 1\<rparr>])
   \<and> Append \<lparr>block_ptr = 11, array_ptr = 21, stale_capacity = 7\<rparr> [] 0 \<lparr>data_m = 10\<rparr>
       [10 \<mapsto> \<lparr>buffer_m = None, capacity_m = 7, size_m = 0, ref_count_m = 1\<rparr>]
     = Inr (\<lparr>data_m = 10\<rparr>,
            [10 \<mapsto> \<lparr>buffer_m = None, capacity_m = 7, size_m = 0, ref_count_m = 1\<rparr>])
   \<and> \<not> 4 dvd unat (capacity_m \<lparr>buffer_m = None, capacity_m = 7, size_m = 0,
                                  ref_count_m = 1\<rparr>)"
  by (simp add: RCString_from_bytes_def Append_def PrepareToModify_def StringData_new_def
      Reserve_def CopyData_def Unique_def memcpy_s_def ResetSharedable_def Let_def)

end
